theory Spec2Isabelle
  imports Main
begin

section \<open>Values of the JavaScript program\<close>

text \<open>
  Document identifiers (\<^verbatim>\<open>_id\<close>, an ObjectId, the field \<open>oid\<close> of a document
  below) are natural numbers, instants (\<^verbatim>\<open>Date\<close>) are milliseconds as integers. A
  string field that may be \<^verbatim>\<open>undefined\<close> is a \<open>string option\<close>.
\<close>

type_synonym objectId = nat
type_synonym instant = int

text \<open>What a \<^verbatim>\<open>throw\<close> carries: \<^verbatim>\<open>new Error(message)\<close>, the TypeError of a
  property read on \<^verbatim>\<open>null\<close>, a rejected \<^verbatim>\<open>save()\<close>, an error of a remote API, the
  CastError of a request parameter that is not an ObjectId.\<close>

datatype exn = Error string | TypeError | SaveError | ApiError nat | CastError

text \<open>
  A counter is a \<^verbatim>\<open>Number\<close>, a double. The view counter starts at 0 and only
  \<^verbatim>\<open>+= 1\<close> changes it, so it is a natural number. \<open>numberPlusOne\<close> is the double
  addition of 1 on the naturals a double holds: exact below \<open>2^53\<close>; from \<open>2^53\<close> to
  \<open>2^54\<close> the doubles are the even numbers and the sum lies halfway between two of
  them, so it is rounded to the one whose significand is even; from \<open>2^54\<close> on the sum
  is rounded back to the number itself.
\<close>

definition numberPlusOne :: "nat \<Rightarrow> nat" where
  "numberPlusOne v =
     (if v < 2 ^ 53 then v + 1
      else if v < 2 ^ 54 \<and> (v div 2) mod 2 = 1 then v + 2
      else v)"

text \<open>JavaScript truthiness of a string-or-undefined value, \<^verbatim>\<open>a || b\<close> on such values.\<close>

definition truthy :: "string option \<Rightarrow> bool" where
  "truthy v = (case v of None \<Rightarrow> False | Some t \<Rightarrow> t \<noteq> [])"

definition orElse :: "string option \<Rightarrow> string option \<Rightarrow> string option" where
  "orElse a b = (if truthy a then a else b)"

definition orDefault :: "string option \<Rightarrow> string \<Rightarrow> string" where
  "orDefault a d = (case a of None \<Rightarrow> d | Some t \<Rightarrow> if t = [] then d else t)"

text \<open>The schema setters \<^verbatim>\<open>trim: true\<close> and \<^verbatim>\<open>lowercase: true\<close>, on ASCII.\<close>

definition isSpace :: "char \<Rightarrow> bool" where
  "isSpace c = (c \<in> set [CHR '' '', CHR 0x09, CHR 0x0A, CHR 0x0B, CHR 0x0C, CHR 0x0D])"

definition trim :: "string \<Rightarrow> string" where
  "trim t = rev (dropWhile isSpace (rev (dropWhile isSpace t)))"

definition toLowerChar :: "char \<Rightarrow> char" where
  "toLowerChar c =
     (let n = of_char c :: nat in if 65 \<le> n \<and> n \<le> 90 then char_of (n + 32) else c)"

definition toLowerCase :: "string \<Rightarrow> string" where
  "toLowerCase t = map toLowerChar t"

text \<open>A number inside a template literal.\<close>

fun decimal :: "nat \<Rightarrow> string" where
  "decimal n =
     (if n < 10 then [char_of (48 + n)]
      else decimal (n div 10) @ [char_of (48 + n mod 10)])"

section \<open>Documents\<close>

datatype role = student | faculty | admin

record google_tokens =
  accessToken :: "string option"
  refreshToken :: "string option"
  expiryDate :: "int option"

record user =
  oid :: objectId
  name :: string
  email :: string
  googleId :: string
  role :: role
  department :: "string option"
  departmentCode :: "string option"
  profilePicture :: string
  googleTokens :: google_tokens
  isActive :: bool
  lastLogin :: instant

record folder =
  oid :: objectId
  facultyId :: objectId
  facultyName :: string
  facultyEmail :: string
  department :: string
  semester :: nat
  subject :: string
  driveFolderId :: string
  driveFolderLink :: string
  permissions :: string
  description :: string
  isActive :: bool
  viewCount :: nat
  lastAccessed :: "instant option"

datatype action =
    login | logout | create_folder | delete_folder | view_folder | update_profile
  | change_role | deactivate_user | activate_user | update_department_code

text \<open>The \<^verbatim>\<open>details\<close> payloads the modelled handlers build.\<close>

datatype details =
    LoginDetails string
  | CreateFolderDetails objectId string nat string
  | DeleteFolderDetails objectId string
  | ViewFolderDetails objectId string string nat

record log =
  userId :: objectId
  userName :: string
  userEmail :: string
  action :: action
  details :: details
  ipAddress :: string
  userAgent :: string
  createdAt :: instant

text \<open>The parts of an Express request that \<^verbatim>\<open>createLog\<close> reads.\<close>

record request =
  ip :: "string option"
  remoteAddress :: "string option"
  userAgentHeader :: "string option"

section \<open>External collaborators\<close>

text \<open>
  The Drive API, the OAuth client, the CryptoJS cipher, the JWT signer, the environment
  variables, the acceptance of a \<^verbatim>\<open>save()\<close> by the persistence layer and its cast of
  a request parameter to an ObjectId (\<open>None\<close> when the parameter is not one, where
  \<^verbatim>\<open>findById\<close> throws) are not part of the repository: they are parameters of the
  model. A remote call or a save that throws is \<open>Inl\<close>.
\<close>

type_synonym credentials = "string option \<times> string option"

record drive_file =
  file_id :: string
  file_name :: string
  webViewLink :: string

record issued_tokens =
  access_token :: "string option"
  refresh_token :: "string option"
  expiry_date :: "int option"

record google_profile =
  profile_id :: string
  profile_name :: string
  profile_email :: string
  picture :: "string option"

record env =
  ENCRYPTION_KEY :: "string option"
  ADMIN_EMAIL :: "string option"
  AES_decrypt_Utf8 :: "string \<Rightarrow> string option \<Rightarrow> exn + string"
  userSaveAccepted :: "user \<Rightarrow> bool"
  folderSaveAccepted :: "folder \<Rightarrow> bool"
  logSaveAccepted :: "log \<Rightarrow> bool"
  files_create :: "string \<Rightarrow> credentials \<Rightarrow> exn + drive_file"
  permissions_create :: "string \<Rightarrow> string \<Rightarrow> credentials \<Rightarrow> exn + unit"
  files_delete :: "string \<Rightarrow> credentials \<Rightarrow> exn + unit"
  files_get_trashed :: "string \<Rightarrow> credentials \<Rightarrow> exn + bool"
  files_get_details :: "string \<Rightarrow> credentials \<Rightarrow> exn + drive_file"
  oauth2_getToken :: "string \<Rightarrow> exn + issued_tokens"
  oauth2_refreshAccessToken :: "string \<Rightarrow> exn + issued_tokens"
  oauth2_userinfo_get :: "string option \<Rightarrow> exn + google_profile"
  generateToken :: "objectId \<Rightarrow> string \<Rightarrow> role \<Rightarrow> string"
  castObjectId :: "string \<Rightarrow> objectId option"

section \<open>State: the three collections and the provider\<close>

datatype drive_call =
    FilesCreate string credentials
  | PermissionsCreate string string credentials
  | FilesDelete string credentials
  | FilesGet string credentials

text \<open>
  \<open>driveCalls\<close> is the trace of the calls issued to the provider, failed ones included;
  \<open>driveRoles\<close> holds the roles the provider granted to \<^verbatim>\<open>anyone\<close>, newest first,
  so that \<open>map_of (driveRoles s) f\<close> is the role in force on the provider's folder \<open>f\<close>.
\<close>

record state =
  users :: "user list"
  folders :: "folder list"
  logs :: "log list"
  driveCalls :: "drive_call list"
  driveRoles :: "(string \<times> string) list"

text \<open>
  \<^verbatim>\<open>Model.findById\<close>, the write of a document under its identifier, and the
  identifier of a new document. Reads always answer; a \<^verbatim>\<open>save()\<close> is rejected (it
  throws, and nothing is written) when the persistence layer does not accept the document.
  The \<^verbatim>\<open>pre('save')\<close> hook of the user schema encrypts \<^verbatim>\<open>departmentCode\<close> only
  when that field was modified; no handler below modifies it, so the hook does nothing in
  \<open>save_user\<close>.
\<close>

definition findById :: "('d \<Rightarrow> objectId) \<Rightarrow> objectId \<Rightarrow> 'd list \<Rightarrow> 'd option" where
  "findById key i ds = find (\<lambda>d. key d = i) ds"

definition put :: "('d \<Rightarrow> objectId) \<Rightarrow> 'd \<Rightarrow> 'd list \<Rightarrow> 'd list" where
  "put key doc ds =
     (case findById key (key doc) ds of
        None \<Rightarrow> ds @ [doc]
      | Some _ \<Rightarrow> map (\<lambda>d. if key d = key doc then doc else d) ds)"

definition freshId :: "('d \<Rightarrow> objectId) \<Rightarrow> 'd list \<Rightarrow> objectId" where
  "freshId key ds = Suc (fold max (map key ds) 0)"

definition save_user :: "env \<Rightarrow> user \<Rightarrow> state \<Rightarrow> exn + state" where
  "save_user env doc s =
     (if userSaveAccepted env doc then Inr (s\<lparr>users := put user.oid doc (users s)\<rparr>)
      else Inl SaveError)"

definition save_folder :: "env \<Rightarrow> folder \<Rightarrow> state \<Rightarrow> exn + state" where
  "save_folder env doc s =
     (if folderSaveAccepted env doc then Inr (s\<lparr>folders := put folder.oid doc (folders s)\<rparr>)
      else Inl SaveError)"

section \<open>utils/logger: createLog\<close>

text \<open>The \<^verbatim>\<open>catch\<close> of \<^verbatim>\<open>createLog\<close> returns null and throws nothing.\<close>

definition createLog ::
  "env \<Rightarrow> instant \<Rightarrow> objectId \<Rightarrow> string \<Rightarrow> string \<Rightarrow> action \<Rightarrow> details \<Rightarrow> request option
     \<Rightarrow> state \<Rightarrow> log option \<times> state" where
  "createLog env now uid uname uemail act det req s =
     (let logData =
        \<lparr> userId = uid, userName = uname, userEmail = uemail, action = act, details = det,
          ipAddress = (case req of None \<Rightarrow> []
                       | Some r \<Rightarrow> orDefault (orElse (ip r) (remoteAddress r)) []),
          userAgent = (case req of None \<Rightarrow> [] | Some r \<Rightarrow> orDefault (userAgentHeader r) []),
          createdAt = now \<rparr>
      in if logSaveAccepted env logData then (Some logData, s\<lparr>logs := logs s @ [logData]\<rparr>)
         else (None, s))"

section \<open>HTTP responses\<close>

datatype payload =
    NoData
  | ErrorData exn
  | DepartmentData string
  | AccessData string string string
  | FolderData folder

datatype response =
    Json nat bool string payload
  | RedirectCallback string role
  | RedirectError exn

fun status :: "response \<Rightarrow> nat option" where
  "status (Json code _ _ _) = Some code"
| "status _ = None"

fun success :: "response \<Rightarrow> bool" where
  "success (Json _ ok _ _) = ok"
| "success _ = False"

section \<open>models/User: getDecryptedDepartmentCode\<close>

definition getDecryptedDepartmentCode :: "env \<Rightarrow> user \<Rightarrow> exn + string option" where
  "getDecryptedDepartmentCode env this =
     (case departmentCode this of
        None \<Rightarrow> Inr None
      | Some c \<Rightarrow>
          if c = [] then Inr None
          else (case AES_decrypt_Utf8 env c (ENCRYPTION_KEY env) of
                  Inl e \<Rightarrow> Inl e
                | Inr plain \<Rightarrow> Inr (Some plain)))"

section \<open>controllers/studentController\<close>

text \<open>The loop of \<^verbatim>\<open>verifyDepartmentCode\<close> that computes \<^verbatim>\<open>isValid\<close>: a faculty whose
  secret does not decrypt is skipped, the first match ends the loop.\<close>

fun isValidCode :: "env \<Rightarrow> string \<Rightarrow> user list \<Rightarrow> bool" where
  "isValidCode env code [] = False"
| "isValidCode env code (fac # rest) =
     (case getDecryptedDepartmentCode env fac of
        Inl _ \<Rightarrow> isValidCode env code rest
      | Inr decryptedCode \<Rightarrow>
          if decryptedCode = Some code then True else isValidCode env code rest)"

definition activeFaculty :: "string \<Rightarrow> user list \<Rightarrow> user list" where
  "activeFaculty dept us =
     filter (\<lambda>u. role u = faculty \<and> user.department u = Some dept \<and> user.isActive u) us"

definition verifyDepartmentCode ::
  "env \<Rightarrow> user \<Rightarrow> string \<Rightarrow> string \<Rightarrow> state \<Rightarrow> response \<times> state" where
  "verifyDepartmentCode env reqUser code dept s =
     (let faculties = activeFaculty dept (users s) in
      if length faculties = 0 then
        (Json 404 False ''No faculty found for this department'' NoData, s)
      else if \<not> isValidCode env code faculties then
        (Json 401 False ''Invalid department code'' NoData, s)
      else if \<not> truthy (user.department reqUser) then
        (case findById user.oid (user.oid reqUser) (users s) of
           None \<Rightarrow>
             (Json 500 False ''Error verifying department code'' (ErrorData TypeError), s)
         | Some found \<Rightarrow>
             (case save_user env (found\<lparr>user.department := Some dept\<rparr>) s of
                Inl e \<Rightarrow> (Json 500 False ''Error verifying department code'' (ErrorData e), s)
              | Inr s' \<Rightarrow>
                  (Json 200 True ''Department code verified successfully''
                     (DepartmentData dept), s')))
      else
        (Json 200 True ''Department code verified successfully'' (DepartmentData dept), s))"

text \<open>\<^verbatim>\<open>incrementViewCount\<close> of models/Folder: the document in memory is changed, then
  saved.\<close>

definition bumpView :: "instant \<Rightarrow> folder \<Rightarrow> folder" where
  "bumpView now this =
     this\<lparr>viewCount := numberPlusOne (viewCount this), lastAccessed := Some now\<rparr>"

definition incrementViewCount ::
  "env \<Rightarrow> instant \<Rightarrow> folder \<Rightarrow> state \<Rightarrow> exn + folder \<times> state" where
  "incrementViewCount env now this s =
     (case save_folder env (bumpView now this) s of
        Inl e \<Rightarrow> Inl e
      | Inr s' \<Rightarrow> Inr (bumpView now this, s'))"

text \<open>
  \<^verbatim>\<open>accessFolder\<close> hands the route parameter \<^verbatim>\<open>req.params.folderId\<close>, a string
  no middleware has checked, to \<^verbatim>\<open>Folder.findById\<close>: a parameter that is not an
  ObjectId makes it throw, and the \<^verbatim>\<open>catch\<close> of the handler answers 500.
\<close>

definition accessFolder ::
  "env \<Rightarrow> instant \<Rightarrow> user \<Rightarrow> string \<Rightarrow> request \<Rightarrow> state \<Rightarrow> response \<times> state" where
  "accessFolder env now reqUser folderIdParam req s =
     (case castObjectId env folderIdParam of
        None \<Rightarrow> (Json 500 False ''Error accessing folder'' (ErrorData CastError), s)
      | Some folderId \<Rightarrow>
          (case findById folder.oid folderId (folders s) of
             None \<Rightarrow> (Json 404 False ''Folder not found'' NoData, s)
           | Some found \<Rightarrow>
               if \<not> folder.isActive found then
                 (Json 400 False ''This folder is no longer available'' NoData, s)
               else
                 (case incrementViewCount env now found s of
                    Inl e \<Rightarrow> (Json 500 False ''Error accessing folder'' (ErrorData e), s)
                  | Inr (doc, s1) \<Rightarrow>
                      (Json 200 True ''Folder accessed''
                         (AccessData (driveFolderLink doc) (subject doc) (facultyName doc)),
                       snd (createLog env now (user.oid reqUser) (name reqUser)
                              (email reqUser) view_folder
                              (ViewFolderDetails (folder.oid doc) (subject doc)
                                 (folder.department doc) (semester doc))
                              (Some req) s1)))))"

section \<open>services/driveService\<close>

text \<open>Every function sets the credentials, issues one API call and, except
  \<^verbatim>\<open>checkFolderExists\<close>, rethrows a failure as a new \<^verbatim>\<open>Error\<close>.\<close>

definition issue :: "drive_call \<Rightarrow> state \<Rightarrow> state" where
  "issue c s = s\<lparr>driveCalls := driveCalls s @ [c]\<rparr>"

definition createFolder ::
  "env \<Rightarrow> string \<Rightarrow> credentials \<Rightarrow> state \<Rightarrow> (exn + drive_file) \<times> state" where
  "createFolder env folderName creds s =
     (case files_create env folderName creds of
        Inl _ \<Rightarrow> (Inl (Error ''Failed to create folder in Google Drive''),
                  issue (FilesCreate folderName creds) s)
      | Inr created \<Rightarrow> (Inr created, issue (FilesCreate folderName creds) s))"

definition permissionMap :: "string \<Rightarrow> string" where
  "permissionMap permission =
     (if permission = ''view'' then ''reader''
      else if permission = ''comment'' then ''commenter''
      else if permission = ''edit'' then ''writer''
      else ''reader'')"

definition setFolderPermissions ::
  "env \<Rightarrow> string \<Rightarrow> string \<Rightarrow> credentials \<Rightarrow> state \<Rightarrow> (exn + bool) \<times> state" where
  "setFolderPermissions env folderId permission creds s =
     (case permissions_create env folderId (permissionMap permission) creds of
        Inl _ \<Rightarrow> (Inl (Error ''Failed to set folder permissions''),
                  issue (PermissionsCreate folderId (permissionMap permission) creds) s)
      | Inr _ \<Rightarrow>
          (Inr True,
           (issue (PermissionsCreate folderId (permissionMap permission) creds) s)
             \<lparr>driveRoles := (folderId, permissionMap permission) # driveRoles s\<rparr>))"

definition deleteFolder ::
  "env \<Rightarrow> string \<Rightarrow> credentials \<Rightarrow> state \<Rightarrow> (exn + bool) \<times> state" where
  "deleteFolder env folderId creds s =
     (case files_delete env folderId creds of
        Inl _ \<Rightarrow> (Inl (Error ''Failed to delete folder from Google Drive''),
                  issue (FilesDelete folderId creds) s)
      | Inr _ \<Rightarrow> (Inr True, issue (FilesDelete folderId creds) s))"

definition checkFolderExists ::
  "env \<Rightarrow> string \<Rightarrow> credentials \<Rightarrow> state \<Rightarrow> (exn + bool) \<times> state" where
  "checkFolderExists env folderId creds s =
     (case files_get_trashed env folderId creds of
        Inl e \<Rightarrow> (if e = ApiError 404 then (Inr False, issue (FilesGet folderId creds) s)
                  else (Inr False, issue (FilesGet folderId creds) s))
      | Inr trashed \<Rightarrow> (Inr (\<not> trashed), issue (FilesGet folderId creds) s))"

definition getFolderDetails ::
  "env \<Rightarrow> string \<Rightarrow> credentials \<Rightarrow> state \<Rightarrow> (exn + drive_file) \<times> state" where
  "getFolderDetails env folderId creds s =
     (case files_get_details env folderId creds of
        Inl _ \<Rightarrow> (Inl (Error ''Failed to get folder details''),
                  issue (FilesGet folderId creds) s)
      | Inr found \<Rightarrow> (Inr found, issue (FilesGet folderId creds) s))"

section \<open>controllers/folderController\<close>

text \<open>The identifier of \<^verbatim>\<open>deleteFolderById\<close> and \<^verbatim>\<open>updateFolder\<close> is the
  ObjectId their route parameter was cast to.\<close>

definition tokensOf :: "user \<Rightarrow> credentials" where
  "tokensOf u = (accessToken (googleTokens u), refreshToken (googleTokens u))"

definition createNewFolder ::
  "env \<Rightarrow> instant \<Rightarrow> user \<Rightarrow> string \<Rightarrow> nat \<Rightarrow> string \<Rightarrow> string option \<Rightarrow> string option
     \<Rightarrow> request \<Rightarrow> state \<Rightarrow> response \<times> state" where
  "createNewFolder env now reqUser dept sem subj perms descr req s =
     (case findById user.oid (user.oid reqUser) (users s) of
        None \<Rightarrow> (Json 500 False ''Error creating folder'' (ErrorData TypeError), s)
      | Some fac \<Rightarrow>
          if \<not> truthy (accessToken (googleTokens fac)) then
            (Json 400 False ''Google Drive not connected. Please reconnect your account.''
               NoData, s)
          else
            (case createFolder env (dept @ ''_SEM'' @ decimal sem @ ''_'' @ subj)
                    (tokensOf fac) s of
               (Inl e, s1) \<Rightarrow> (Json 500 False ''Error creating folder'' (ErrorData e), s1)
             | (Inr driveFolder, s1) \<Rightarrow>
                 (case setFolderPermissions env (file_id driveFolder)
                         (orDefault perms ''view'') (tokensOf fac) s1 of
                    (Inl e, s2) \<Rightarrow>
                      (Json 500 False ''Error creating folder'' (ErrorData e), s2)
                  | (Inr _, s2) \<Rightarrow>
                      (let doc =
                         \<lparr> folder.oid = freshId folder.oid (folders s2),
                           facultyId = user.oid fac,
                           facultyName = name fac,
                           facultyEmail = email fac,
                           department = dept,
                           semester = sem,
                           subject = trim subj,
                           driveFolderId = file_id driveFolder,
                           driveFolderLink = webViewLink driveFolder,
                           permissions = orDefault perms ''view'',
                           description = orDefault descr [],
                           isActive = True,
                           viewCount = 0,
                           lastAccessed = None \<rparr>
                       in case save_folder env doc s2 of
                            Inl e \<Rightarrow>
                              (Json 500 False ''Error creating folder'' (ErrorData e), s2)
                          | Inr s3 \<Rightarrow>
                              (Json 201 True ''Folder created successfully'' (FolderData doc),
                               snd (createLog env now (user.oid fac) (name fac) (email fac)
                                      create_folder
                                      (CreateFolderDetails (folder.oid doc) dept sem subj)
                                      (Some req) s3))))))"

text \<open>
  In \<^verbatim>\<open>deleteFolderById\<close> the reads of \<^verbatim>\<open>faculty.googleTokens\<close> are inside the
  \<^verbatim>\<open>try\<close> whose \<^verbatim>\<open>catch\<close> continues, the read of \<^verbatim>\<open>faculty._id\<close> for the log
  entry is outside.
\<close>

definition deleteFolderById ::
  "env \<Rightarrow> instant \<Rightarrow> user \<Rightarrow> objectId \<Rightarrow> request \<Rightarrow> state \<Rightarrow> response \<times> state" where
  "deleteFolderById env now reqUser folderId req s =
     (case findById folder.oid folderId (folders s) of
        None \<Rightarrow> (Json 404 False ''Folder not found'' NoData, s)
      | Some found \<Rightarrow>
          if facultyId found \<noteq> user.oid reqUser then
            (Json 403 False ''Not authorized to delete this folder'' NoData, s)
          else
            (let fac = findById user.oid (user.oid reqUser) (users s);
                 s1 = (case fac of
                         None \<Rightarrow> s
                       | Some f \<Rightarrow> snd (deleteFolder env (driveFolderId found) (tokensOf f) s))
             in case save_folder env (found\<lparr>folder.isActive := False\<rparr>) s1 of
                  Inl e \<Rightarrow> (Json 500 False ''Error deleting folder'' (ErrorData e), s1)
                | Inr s2 \<Rightarrow>
                    (case fac of
                       None \<Rightarrow>
                         (Json 500 False ''Error deleting folder'' (ErrorData TypeError), s2)
                     | Some f \<Rightarrow>
                         (Json 200 True ''Folder deleted successfully'' NoData,
                          snd (createLog env now (user.oid f) (name f) (email f)
                                 delete_folder
                                 (DeleteFolderDetails (folder.oid found) (subject found))
                                 (Some req) s2)))))"

definition saveUpdated :: "env \<Rightarrow> folder \<Rightarrow> state \<Rightarrow> response \<times> state" where
  "saveUpdated env doc s =
     (case save_folder env doc s of
        Inl e \<Rightarrow> (Json 500 False ''Error updating folder'' (ErrorData e), s)
      | Inr s' \<Rightarrow> (Json 200 True ''Folder updated successfully'' (FolderData doc), s'))"

definition editFields :: "string option \<Rightarrow> string option \<Rightarrow> folder \<Rightarrow> folder" where
  "editFields subj descr doc =
     (let doc1 = (case subj of
                    None \<Rightarrow> doc
                  | Some t \<Rightarrow> if t = [] then doc else doc\<lparr>subject := trim t\<rparr>)
      in case descr of None \<Rightarrow> doc1 | Some d \<Rightarrow> doc1\<lparr>description := d\<rparr>)"

definition updateFolder ::
  "env \<Rightarrow> user \<Rightarrow> objectId \<Rightarrow> string option \<Rightarrow> string option \<Rightarrow> string option
     \<Rightarrow> state \<Rightarrow> response \<times> state" where
  "updateFolder env reqUser folderId subj perms descr s =
     (case findById folder.oid folderId (folders s) of
        None \<Rightarrow> (Json 404 False ''Folder not found'' NoData, s)
      | Some found \<Rightarrow>
          if facultyId found \<noteq> user.oid reqUser then
            (Json 403 False ''Not authorized to update this folder'' NoData, s)
          else
            (case perms of
               None \<Rightarrow> saveUpdated env (editFields subj descr found) s
             | Some p \<Rightarrow>
                 if p \<noteq> [] \<and> p \<noteq> permissions found then
                   (case findById user.oid (user.oid reqUser) (users s) of
                      None \<Rightarrow>
                        (Json 500 False ''Error updating folder'' (ErrorData TypeError), s)
                    | Some fac \<Rightarrow>
                        (case setFolderPermissions env (driveFolderId found) p
                                (tokensOf fac) s of
                           (Inl e, s1) \<Rightarrow>
                             (Json 500 False ''Error updating folder'' (ErrorData e), s1)
                         | (Inr _, s1) \<Rightarrow>
                             saveUpdated env
                               ((editFields subj descr found)\<lparr>permissions := p\<rparr>) s1))
                 else saveUpdated env (editFields subj descr found) s))"

section \<open>config/googleAuth and controllers/authController\<close>

definition getTokens :: "env \<Rightarrow> string \<Rightarrow> exn + issued_tokens" where
  "getTokens env code = oauth2_getToken env code"

definition refreshAccessToken :: "env \<Rightarrow> string \<Rightarrow> exn + issued_tokens" where
  "refreshAccessToken env token = oauth2_refreshAccessToken env token"

definition getUserInfo :: "env \<Rightarrow> string option \<Rightarrow> exn + google_profile" where
  "getUserInfo env token = oauth2_userinfo_get env token"

text \<open>The two documents \<^verbatim>\<open>googleCallback\<close> saves: the existing user with the new
  bundle, or a new user.\<close>

definition loggedIn :: "instant \<Rightarrow> issued_tokens \<Rightarrow> google_profile \<Rightarrow> user \<Rightarrow> user" where
  "loggedIn now tokens userInfo u =
     u\<lparr> googleTokens :=
          \<lparr> accessToken = access_token tokens,
            refreshToken = orElse (refresh_token tokens) (refreshToken (googleTokens u)),
            expiryDate = expiry_date tokens \<rparr>,
        lastLogin := now,
        profilePicture := orDefault (picture userInfo) (profilePicture u) \<rparr>"

definition newUser ::
  "env \<Rightarrow> instant \<Rightarrow> issued_tokens \<Rightarrow> google_profile \<Rightarrow> objectId \<Rightarrow> user" where
  "newUser env now tokens userInfo i =
     \<lparr> user.oid = i,
       name = trim (profile_name userInfo),
       email = toLowerCase (trim (profile_email userInfo)),
       googleId = profile_id userInfo,
       role = (if ADMIN_EMAIL env = Some (profile_email userInfo) then admin else student),
       department = None,
       departmentCode = None,
       profilePicture = orDefault (picture userInfo) [],
       googleTokens =
         \<lparr> accessToken = access_token tokens,
           refreshToken = refresh_token tokens,
           expiryDate = expiry_date tokens \<rparr>,
       isActive = True,
       lastLogin = now \<rparr>"

text \<open>\<^verbatim>\<open>User.findOne({ email })\<close>: the schema's setters of \<^verbatim>\<open>email\<close> are applied to
  the value looked for, as they are to the value stored.\<close>

definition findOneByEmail :: "string \<Rightarrow> user list \<Rightarrow> user option" where
  "findOneByEmail e us = find (\<lambda>u. email u = toLowerCase (trim e)) us"

definition googleCallback ::
  "env \<Rightarrow> instant \<Rightarrow> string option \<Rightarrow> request \<Rightarrow> state \<Rightarrow> response \<times> state" where
  "googleCallback env now code req s =
     (case code of
        None \<Rightarrow> (Json 400 False ''Authorization code not provided'' NoData, s)
      | Some c \<Rightarrow>
          if c = [] then (Json 400 False ''Authorization code not provided'' NoData, s)
          else
            (case getTokens env c of
               Inl e \<Rightarrow> (RedirectError e, s)
             | Inr tokens \<Rightarrow>
                 (case getUserInfo env (access_token tokens) of
                    Inl e \<Rightarrow> (RedirectError e, s)
                  | Inr userInfo \<Rightarrow>
                      (let doc =
                         (case findOneByEmail (profile_email userInfo) (users s) of
                            Some u \<Rightarrow> loggedIn now tokens userInfo u
                          | None \<Rightarrow>
                              newUser env now tokens userInfo (freshId user.oid (users s)))
                       in case save_user env doc s of
                            Inl e \<Rightarrow> (RedirectError e, s)
                          | Inr s1 \<Rightarrow>
                              (RedirectCallback
                                 (generateToken env (user.oid doc) (email doc) (role doc))
                                 (role doc),
                               snd (createLog env now (user.oid doc) (name doc) (email doc)
                                      login (LoginDetails ''google_oauth'') (Some req)
                                      s1))))))"

definition refreshGoogleToken :: "env \<Rightarrow> user \<Rightarrow> state \<Rightarrow> response \<times> state" where
  "refreshGoogleToken env reqUser s =
     (case findById user.oid (user.oid reqUser) (users s) of
        None \<Rightarrow> (Json 500 False ''Error refreshing token'' (ErrorData TypeError), s)
      | Some u \<Rightarrow>
          (case refreshToken (googleTokens u) of
             None \<Rightarrow>
               (Json 400 False ''No refresh token available. Please re-authenticate.''
                  NoData, s)
           | Some stored \<Rightarrow>
               if stored = [] then
                 (Json 400 False ''No refresh token available. Please re-authenticate.''
                    NoData, s)
               else
                 (case refreshAccessToken env stored of
                    Inl e \<Rightarrow> (Json 500 False ''Error refreshing token'' (ErrorData e), s)
                  | Inr newTokens \<Rightarrow>
                      (case save_user env
                              (u\<lparr>googleTokens :=
                                   (googleTokens u)
                                     \<lparr>accessToken := access_token newTokens,
                                      expiryDate := expiry_date newTokens\<rparr>\<rparr>) s of
                         Inl e \<Rightarrow>
                           (Json 500 False ''Error refreshing token'' (ErrorData e), s)
                       | Inr s1 \<Rightarrow>
                           (Json 200 True ''Token refreshed successfully'' NoData, s1)))))"

section \<open>Several access calls on one folder\<close>

text \<open>Calls that run one after another: each handler finishes before the next starts.\<close>

fun accessAll ::
  "env \<Rightarrow> string \<Rightarrow> (instant \<times> user \<times> request) list \<Rightarrow> state \<Rightarrow> response list \<times> state" where
  "accessAll env folderIdParam [] s = ([], s)"
| "accessAll env folderIdParam ((now, reqUser, req) # rest) s =
     (case accessFolder env now reqUser folderIdParam req s of
        (r, s1) \<Rightarrow>
          (case accessAll env folderIdParam rest s1 of (rs, s2) \<Rightarrow> (r # rs, s2)))"

text \<open>
  Calls that overlap. A handler is suspended at each \<^verbatim>\<open>await\<close>, so between the
  \<^verbatim>\<open>await Folder.findById\<close> of one call and the \<^verbatim>\<open>await this.save()\<close> of its
  \<^verbatim>\<open>incrementViewCount\<close> the store can serve other calls. The calls are on the
  folder with the identifier their parameter is cast to. A call is \<open>Waiting\<close> before
  its read, \<open>Loaded doc\<close> between its read and its save, where \<open>doc\<close> is the document
  it read, and \<open>Responded\<close> afterwards; it carries the instant its \<^verbatim>\<open>new Date()\<close>
  yields. An event \<open>Read i\<close> or \<open>Write i\<close> is the store serving the read or the
  save of call \<open>i\<close>; an event that is not enabled changes nothing. The save writes
  the paths the call modified, the counter and the last access; the other fields of a
  folder never change while only access calls run, so writing the document the call holds
  is the same. The log entry does not touch the folder collection and is left out.
\<close>

datatype pc = Waiting | Loaded folder | Responded

datatype db_event = Read nat | Write nat

type_synonym inflight = "(instant \<times> pc) list"

fun dbStep :: "env \<Rightarrow> objectId \<Rightarrow> db_event \<Rightarrow> state \<times> inflight \<Rightarrow> state \<times> inflight" where
  "dbStep env folderId (Read i) (s, calls) =
     (if i < length calls then
        (case calls ! i of
           (now, Waiting) \<Rightarrow>
             (case findById folder.oid folderId (folders s) of
                None \<Rightarrow> (s, calls[i := (now, Responded)])
              | Some found \<Rightarrow>
                  if \<not> folder.isActive found then (s, calls[i := (now, Responded)])
                  else (s, calls[i := (now, Loaded found)]))
         | _ \<Rightarrow> (s, calls))
      else (s, calls))"
| "dbStep env folderId (Write i) (s, calls) =
     (if i < length calls then
        (case calls ! i of
           (now, Loaded doc) \<Rightarrow>
             (case incrementViewCount env now doc s of
                Inl _ \<Rightarrow> (s, calls[i := (now, Responded)])
              | Inr (_, s1) \<Rightarrow> (s1, calls[i := (now, Responded)]))
         | _ \<Rightarrow> (s, calls))
      else (s, calls))"

definition runEvents ::
  "env \<Rightarrow> objectId \<Rightarrow> db_event list \<Rightarrow> state \<times> inflight \<Rightarrow> state \<times> inflight" where
  "runEvents env folderId es c = fold (dbStep env folderId) es c"

definition allResponded :: "inflight \<Rightarrow> bool" where
  "allResponded calls = list_all (\<lambda>c. snd c = Responded) calls"

definition allWaiting :: "inflight \<Rightarrow> bool" where
  "allWaiting calls = list_all (\<lambda>c. snd c = Waiting) calls"

definition viewsOf :: "objectId \<Rightarrow> state \<Rightarrow> nat option" where
  "viewsOf folderId s = map_option viewCount (findById folder.oid folderId (folders s))"

definition lastAccessOf :: "objectId \<Rightarrow> state \<Rightarrow> instant option option" where
  "lastAccessOf folderId s =
     map_option lastAccessed (findById folder.oid folderId (folders s))"

text \<open>
  \<open>servedWrites\<close> lists, in the order of the events, the calls whose save the store
  applied: a \<open>Write i\<close> served while call \<open>i\<close> holds a document whose save is
  accepted.
\<close>

definition writes :: "env \<Rightarrow> nat \<Rightarrow> state \<times> inflight \<Rightarrow> bool" where
  "writes env i c =
     (i < length (snd c) \<and>
      (case snd (snd c ! i) of
         Loaded doc \<Rightarrow> folderSaveAccepted env (bumpView (fst (snd c ! i)) doc)
       | _ \<Rightarrow> False))"

definition servedNow :: "env \<Rightarrow> db_event \<Rightarrow> state \<times> inflight \<Rightarrow> nat list" where
  "servedNow env e c =
     (case e of Read _ \<Rightarrow> [] | Write i \<Rightarrow> if writes env i c then [i] else [])"

fun servedWrites ::
  "env \<Rightarrow> objectId \<Rightarrow> db_event list \<Rightarrow> state \<times> inflight \<Rightarrow> nat list" where
  "servedWrites env folderId [] c = []"
| "servedWrites env folderId (e # es) c =
     servedNow env e c @ servedWrites env folderId es (dbStep env folderId e c)"

section \<open>The validators of the schemas\<close>

text \<open>
  The \<^verbatim>\<open>required\<close>, \<^verbatim>\<open>enum\<close>, \<^verbatim>\<open>min\<close> and \<^verbatim>\<open>max\<close> validators that
  \<^verbatim>\<open>userSchema\<close>, \<^verbatim>\<open>folderSchema\<close> and \<^verbatim>\<open>logSchema\<close> declare; a required
  string must be present and not empty. The \<^verbatim>\<open>match\<close> validator of the user's email
  and the unique indexes are left out: a document that fails these checks is refused by a
  store that applies the schema.
\<close>

definition userDepartments :: "string list" where
  "userDepartments =
     [''CSE'', ''ECE'', ''MECH'', ''CIVIL'', ''EEE'', ''IT'', ''CHEM'', ''BIOTECH'', '''']"

definition folderDepartments :: "string list" where
  "folderDepartments =
     [''CSE'', ''ECE'', ''MECH'', ''CIVIL'', ''EEE'', ''IT'', ''CHEM'', ''BIOTECH'']"

definition userSchemaChecks :: "user \<Rightarrow> bool" where
  "userSchemaChecks d =
     (name d \<noteq> [] \<and> email d \<noteq> [] \<and> googleId d \<noteq> [] \<and>
      (if role d = student \<or> role d = faculty then truthy (user.department d) else True) \<and>
      (case user.department d of None \<Rightarrow> True | Some x \<Rightarrow> x \<in> set userDepartments) \<and>
      (if role d = faculty then truthy (departmentCode d) else True))"

definition folderSchemaChecks :: "folder \<Rightarrow> bool" where
  "folderSchemaChecks d =
     (facultyName d \<noteq> [] \<and> facultyEmail d \<noteq> [] \<and>
      folder.department d \<in> set folderDepartments \<and>
      1 \<le> semester d \<and> semester d \<le> 8 \<and>
      subject d \<noteq> [] \<and> driveFolderId d \<noteq> [] \<and> driveFolderLink d \<noteq> [] \<and>
      permissions d \<in> set [''view'', ''comment'', ''edit''])"

definition logSchemaChecks :: "log \<Rightarrow> bool" where
  "logSchemaChecks d = (userName d \<noteq> [] \<and> userEmail d \<noteq> [])"

section \<open>A small installation\<close>

text \<open>One faculty member of CSE who owns one folder, a student without a department, a
  faculty member of ECE, and collaborators that accept every call; \<open>envDown\<close> is the
  same with a provider that rejects every call, \<open>envAdmin\<close> the same with the
  bootstrap administrator set to the identity the provider reports. \<open>envSchema\<close> is
  the same with a store that applies the validators of the schemas, \<open>envNoLog\<close>,
  \<open>envNoUserSave\<close> and \<open>envDownNoFolderSave\<close> with a store that refuses the saves
  of one collection. \<open>ghost\<close> is a requester whose record is not stored.\<close>

definition env0 :: env where
  "env0 =
     \<lparr> ENCRYPTION_KEY = Some ''key-1'',
       ADMIN_EMAIL = Some ''admin@college.edu'',
       AES_decrypt_Utf8 =
         (\<lambda>c k. if c = ''U2FsdGVkX1-cse'' \<and> k = Some ''key-1'' then Inr ''CSE2024ABC''
                 else if c = ''U2FsdGVkX1-ece'' \<and> k = Some ''key-1'' then Inr ''ECE2024XYZ''
                 else Inl (Error ''Malformed UTF-8 data'')),
       userSaveAccepted = (\<lambda>_. True),
       folderSaveAccepted = (\<lambda>_. True),
       logSaveAccepted = (\<lambda>_. True),
       files_create =
         (\<lambda>n _. Inr \<lparr>file_id = ''drv-'' @ n, file_name = n, webViewLink = ''https://drive/'' @ n\<rparr>),
       permissions_create = (\<lambda>_ _ _. Inr ()),
       files_delete = (\<lambda>_ _. Inr ()),
       files_get_trashed = (\<lambda>_ _. Inr False),
       files_get_details =
         (\<lambda>i _. Inr \<lparr>file_id = i, file_name = ''folder'', webViewLink = ''https://drive/'' @ i\<rparr>),
       oauth2_getToken =
         (\<lambda>_. Inr \<lparr>access_token = Some ''at-2'', refresh_token = None, expiry_date = Some 2000\<rparr>),
       oauth2_refreshAccessToken =
         (\<lambda>_. Inr \<lparr>access_token = Some ''at-3'', refresh_token = Some ''rt-3'',
                    expiry_date = Some 3000\<rparr>),
       oauth2_userinfo_get =
         (\<lambda>_. Inr \<lparr>profile_id = ''g-9'', profile_name = ''Ravi'',
                    profile_email = ''ravi@college.edu'', picture = None\<rparr>),
       generateToken = (\<lambda>_ _ _. ''jwt''),
       castObjectId =
         (\<lambda>p. if p = ''00000000000000000000000a'' then Some 10
              else if p = ''00000000000000000000000b'' then Some 11
              else None) \<rparr>"

definition envDown :: env where
  "envDown =
     env0\<lparr> files_create := (\<lambda>_ _. Inl (ApiError 503)),
           permissions_create := (\<lambda>_ _ _. Inl (ApiError 503)),
           files_delete := (\<lambda>_ _. Inl (ApiError 503)),
           files_get_trashed := (\<lambda>_ _. Inl (ApiError 503)),
           files_get_details := (\<lambda>_ _. Inl (ApiError 503)) \<rparr>"

definition envAdmin :: env where
  "envAdmin = env0\<lparr> ADMIN_EMAIL := Some ''ravi@college.edu'' \<rparr>"

text \<open>The identity provider reporting the faculty member of CSE, without and with a
  new refresh token.\<close>

definition envAsha :: env where
  "envAsha =
     env0\<lparr> oauth2_userinfo_get :=
             (\<lambda>_. Inr \<lparr>profile_id = ''g-1'', profile_name = ''Asha'',
                        profile_email = ''asha@college.edu'', picture = Some ''pic-1''\<rparr>) \<rparr>"

definition envAshaRotate :: env where
  "envAshaRotate =
     envAsha\<lparr> oauth2_getToken :=
                (\<lambda>_. Inr \<lparr>access_token = Some ''at-2'', refresh_token = Some ''rt-9'',
                           expiry_date = Some 2000\<rparr>) \<rparr>"

definition envSchema :: env where
  "envSchema =
     env0\<lparr> userSaveAccepted := userSchemaChecks,
           folderSaveAccepted := folderSchemaChecks,
           logSaveAccepted := logSchemaChecks \<rparr>"

definition envNoLog :: env where
  "envNoLog = env0\<lparr> logSaveAccepted := (\<lambda>_. False) \<rparr>"

definition envNoUserSave :: env where
  "envNoUserSave = env0\<lparr> userSaveAccepted := (\<lambda>_. False) \<rparr>"

definition envDownNoLog :: env where
  "envDownNoLog = envDown\<lparr> logSaveAccepted := (\<lambda>_. False) \<rparr>"

definition envDownNoFolderSave :: env where
  "envDownNoFolderSave = envDown\<lparr> folderSaveAccepted := (\<lambda>_. False) \<rparr>"

definition fac0 :: user where
  "fac0 =
     \<lparr> user.oid = 1, name = ''Asha'', email = ''asha@college.edu'', googleId = ''g-1'',
       role = faculty, department = Some ''CSE'', departmentCode = Some ''U2FsdGVkX1-cse'',
       profilePicture = [],
       googleTokens =
         \<lparr>accessToken = Some ''at-1'', refreshToken = Some ''rt-1'', expiryDate = Some 1000\<rparr>,
       isActive = True, lastLogin = 0 \<rparr>"

definition stud0 :: user where
  "stud0 =
     \<lparr> user.oid = 2, name = ''Bala'', email = ''bala@college.edu'', googleId = ''g-2'',
       role = student, department = None, departmentCode = None, profilePicture = [],
       googleTokens = \<lparr>accessToken = Some ''at-b'', refreshToken = None, expiryDate = Some 900\<rparr>,
       isActive = True, lastLogin = 0 \<rparr>"

definition ghost :: user where
  "ghost =
     \<lparr> user.oid = 99, name = ''Gone'', email = ''gone@college.edu'', googleId = ''g-99'',
       role = student, department = None, departmentCode = None, profilePicture = [],
       googleTokens = \<lparr>accessToken = None, refreshToken = None, expiryDate = None\<rparr>,
       isActive = True, lastLogin = 0 \<rparr>"

definition fac1 :: user where
  "fac1 =
     \<lparr> user.oid = 3, name = ''Chitra'', email = ''chitra@college.edu'', googleId = ''g-3'',
       role = faculty, department = Some ''ECE'', departmentCode = Some ''U2FsdGVkX1-ece'',
       profilePicture = [],
       googleTokens =
         \<lparr>accessToken = Some ''at-c'', refreshToken = Some ''rt-c'', expiryDate = Some 1000\<rparr>,
       isActive = True, lastLogin = 0 \<rparr>"

definition folder0 :: folder where
  "folder0 =
     \<lparr> folder.oid = 10, facultyId = 1, facultyName = ''Asha'',
       facultyEmail = ''asha@college.edu'', department = ''CSE'', semester = 3,
       subject = ''Algorithms'', driveFolderId = ''drv-10'',
       driveFolderLink = ''https://drive/drv-10'', permissions = ''view'', description = [],
       isActive = True, viewCount = 0, lastAccessed = None \<rparr>"

definition req0 :: request where
  "req0 = \<lparr> ip = Some ''10.0.0.7'', remoteAddress = None, userAgentHeader = Some ''curl'' \<rparr>"

definition s0 :: state where
  "s0 =
     \<lparr> users = [fac0, stud0, fac1], folders = [folder0], logs = [], driveCalls = [],
       driveRoles = [(''drv-10'', ''reader'')] \<rparr>"

definition calls2 :: inflight where
  "calls2 = [(100, Waiting), (200, Waiting)]"

definition visits2 :: "(instant \<times> user \<times> request) list" where
  "visits2 = [(100, stud0, req0), (200, stud0, req0)]"

section \<open>Invariant of overlapping access calls\<close>

text \<open>
  \<open>doneCount\<close> counts the calls that have responded, \<open>sameFolder a b\<close> says that
  two folder documents differ in the counter and the last access at most. While access
  calls overlap on the folder \<open>found\<close>, the stored folder and every document a call
  holds between its read and its save are \<open>found\<close> but for the counter and the last
  access, their counters lie between the initial counter and the initial counter plus the
  number of calls that have responded, and the stored counter is above the initial one
  once a call has responded.
\<close>

definition doneCount :: "inflight \<Rightarrow> nat" where
  "doneCount calls = length (filter (\<lambda>c. snd c = Responded) calls)"

definition sameFolder :: "folder \<Rightarrow> folder \<Rightarrow> bool" where
  "sameFolder a b =
     (a\<lparr>viewCount := 0, lastAccessed := None\<rparr> = b\<lparr>viewCount := 0, lastAccessed := None\<rparr>)"

definition roundTripInv :: "folder \<Rightarrow> state \<times> inflight \<Rightarrow> bool" where
  "roundTripInv found c =
     ((\<exists>g. findById folder.oid (folder.oid found) (folders (fst c)) = Some g \<and>
           sameFolder found g \<and>
           viewCount found + (if 0 < doneCount (snd c) then 1 else 0) \<le> viewCount g \<and>
           viewCount g \<le> viewCount found + doneCount (snd c)) \<and>
      (\<forall>i t doc. i < length (snd c) \<and> snd c ! i = (t, Loaded doc) \<longrightarrow>
           sameFolder found doc \<and> viewCount found \<le> viewCount doc \<and>
           viewCount doc \<le> viewCount found + doneCount (snd c)))"

section \<open>Facts about the store\<close>

lemmas installation =
  env0_def envDown_def envAdmin_def envAsha_def envAshaRotate_def envSchema_def
  envNoLog_def envNoUserSave_def envDownNoLog_def envDownNoFolderSave_def
  fac0_def stud0_def ghost_def fac1_def folder0_def req0_def s0_def calls2_def visits2_def

lemma findById_Some: "findById key i ds = Some d \<Longrightarrow> key d = i \<and> d \<in> set ds"
  unfolding findById_def by (induction ds) (auto split: if_splits)

lemma findById_None: "findById key i ds = None \<longleftrightarrow> (\<forall>d \<in> set ds. key d \<noteq> i)"
  unfolding findById_def by (induction ds) auto

lemma find_replaced:
  "find (\<lambda>d. key d = i) (map (\<lambda>d. if key d = key doc then doc else d) ds) =
     (if i = key doc
      then (case find (\<lambda>d. key d = i) ds of None \<Rightarrow> None | Some _ \<Rightarrow> Some doc)
      else find (\<lambda>d. key d = i) ds)"
  by (induction ds) auto

lemma find_appended:
  "find P (xs @ ys) = (case find P xs of None \<Rightarrow> find P ys | Some x \<Rightarrow> Some x)"
  by (induction xs) auto

lemma findById_put:
  "findById key i (put key doc ds) = (if i = key doc then Some doc else findById key i ds)"
  unfolding put_def findById_def
  by (auto simp: find_replaced find_appended split: option.splits)

lemma fold_max_ge: "(a::nat) \<le> fold max xs a"
proof (induction xs arbitrary: a)
  case Nil
  show ?case by simp
next
  case (Cons x xs)
  have "a \<le> max x a" by simp
  also have "\<dots> \<le> fold max xs (max x a)" by (rule Cons.IH)
  finally show ?case by simp
qed

lemma fold_max_mem: "(x::nat) \<in> set xs \<Longrightarrow> x \<le> fold max xs a"
proof (induction xs arbitrary: a)
  case Nil
  then show ?case by simp
next
  case (Cons y ys)
  show ?case
  proof (cases "x = y")
    case True
    have "x \<le> max y a" using True by simp
    also have "\<dots> \<le> fold max ys (max y a)" by (rule fold_max_ge)
    finally show ?thesis by simp
  next
    case False
    with Cons.prems have "x \<in> set ys" by simp
    then show ?thesis using Cons.IH by simp
  qed
qed

lemma freshId_unused: "findById key (freshId key ds) ds = None"
proof -
  have "key d \<noteq> freshId key ds" if "d \<in> set ds" for d
  proof -
    from that have "key d \<in> set (map key ds)" by simp
    then have "key d \<le> fold max (map key ds) 0" by (rule fold_max_mem)
    then show ?thesis by (simp add: freshId_def)
  qed
  then show ?thesis by (simp add: findById_None)
qed

lemma put_fresh: "key doc = freshId key ds \<Longrightarrow> put key doc ds = ds @ [doc]"
  using freshId_unused[of key ds] by (simp add: put_def)

section \<open>Department code verification\<close>

lemma isValidCode_iff:
  "isValidCode env code fs \<longleftrightarrow>
     (\<exists>f \<in> set fs. \<exists>c. departmentCode f = Some c \<and> c \<noteq> [] \<and>
        AES_decrypt_Utf8 env c (ENCRYPTION_KEY env) = Inr code)"
  by (induction fs)
     (auto simp: getDecryptedDepartmentCode_def split: option.splits sum.splits if_splits)

lemma set_activeFaculty:
  "set (activeFaculty dept us) =
     {u \<in> set us. role u = faculty \<and> user.department u = Some dept \<and> user.isActive u}"
  by (auto simp: activeFaculty_def)

text \<open>
  Claim C1, as amended. \<^verbatim>\<open>verifyDepartmentCode\<close> answers 404 exactly when the
  department has no active faculty member, and 401 exactly when it has some and none of
  them stores a non-empty encrypted secret that decrypts, under the configured key, to the
  candidate code as it is (string equality, so a difference of case is a mismatch). It
  reports success exactly when some active faculty member of the department stores such a
  secret and the requester's record can take the department: the requester has one
  already, or the record is found and its save with the verified department is accepted.
  A matching code whose requester's record is missing or refused is answered with 500.
\<close>

theorem verifyDepartmentCode_decision:
  "(status (fst (verifyDepartmentCode env reqUser code dept s)) = Some 404 \<longleftrightarrow>
      \<not> (\<exists>f \<in> set (users s).
            role f = faculty \<and> user.department f = Some dept \<and> user.isActive f))
   \<and> (status (fst (verifyDepartmentCode env reqUser code dept s)) = Some 401 \<longleftrightarrow>
      (\<exists>f \<in> set (users s).
            role f = faculty \<and> user.department f = Some dept \<and> user.isActive f) \<and>
      \<not> (\<exists>f \<in> set (users s).
            role f = faculty \<and> user.department f = Some dept \<and> user.isActive f \<and>
            (\<exists>c. departmentCode f = Some c \<and> c \<noteq> [] \<and>
                 AES_decrypt_Utf8 env c (ENCRYPTION_KEY env) = Inr code)))
   \<and> (success (fst (verifyDepartmentCode env reqUser code dept s)) \<longleftrightarrow>
      (\<exists>f \<in> set (users s).
            role f = faculty \<and> user.department f = Some dept \<and> user.isActive f \<and>
            (\<exists>c. departmentCode f = Some c \<and> c \<noteq> [] \<and>
                 AES_decrypt_Utf8 env c (ENCRYPTION_KEY env) = Inr code)) \<and>
      (truthy (user.department reqUser) \<or>
       (\<exists>found. findById user.oid (user.oid reqUser) (users s) = Some found \<and>
           userSaveAccepted env (found\<lparr>user.department := Some dept\<rparr>))))
   \<and> (status (fst (verifyDepartmentCode env reqUser code dept s)) = Some 500 \<longleftrightarrow>
      (\<exists>f \<in> set (users s).
            role f = faculty \<and> user.department f = Some dept \<and> user.isActive f \<and>
            (\<exists>c. departmentCode f = Some c \<and> c \<noteq> [] \<and>
                 AES_decrypt_Utf8 env c (ENCRYPTION_KEY env) = Inr code)) \<and>
      \<not> (truthy (user.department reqUser) \<or>
         (\<exists>found. findById user.oid (user.oid reqUser) (users s) = Some found \<and>
             userSaveAccepted env (found\<lparr>user.department := Some dept\<rparr>))))"
proof -
  let ?fs = "activeFaculty dept (users s)"
  let ?A = "\<exists>f \<in> set (users s).
              role f = faculty \<and> user.department f = Some dept \<and> user.isActive f"
  let ?M = "\<exists>f \<in> set (users s).
              role f = faculty \<and> user.department f = Some dept \<and> user.isActive f \<and>
              (\<exists>c. departmentCode f = Some c \<and> c \<noteq> [] \<and>
                   AES_decrypt_Utf8 env c (ENCRYPTION_KEY env) = Inr code)"
  have "set ?fs = {} \<longleftrightarrow> \<not> ?A"
    unfolding set_activeFaculty by blast
  then have A: "?fs = [] \<longleftrightarrow> \<not> ?A" by simp
  have M: "isValidCode env code ?fs \<longleftrightarrow> ?M"
    unfolding isValidCode_iff set_activeFaculty by blast
  have MA: "?M \<Longrightarrow> ?A" by blast
  show ?thesis
    unfolding M[symmetric] A[symmetric]
    using M A MA
    by (auto simp: verifyDepartmentCode_def Let_def save_user_def
             split: option.splits sum.splits if_splits)
qed

theorem verifyDepartmentCode_decision_witness:
  "fac0 \<in> set (users s0) \<and> role fac0 = faculty \<and> user.department fac0 = Some ''CSE'' \<and>
   user.isActive fac0 \<and> departmentCode fac0 = Some ''U2FsdGVkX1-cse'' \<and>
   AES_decrypt_Utf8 env0 ''U2FsdGVkX1-cse'' (ENCRYPTION_KEY env0) = Inr ''CSE2024ABC'' \<and>
   findById user.oid (user.oid stud0) (users s0) = Some stud0 \<and>
   userSaveAccepted env0 (stud0\<lparr>user.department := Some ''CSE''\<rparr>) \<and>
   success (fst (verifyDepartmentCode env0 stud0 ''CSE2024ABC'' ''CSE'' s0)) \<and>
   status (fst (verifyDepartmentCode env0 stud0 ''cse2024abc'' ''CSE'' s0)) = Some 401 \<and>
   status (fst (verifyDepartmentCode env0 stud0 ''CSE2024ABC'' ''IT'' s0)) = Some 404"
proof -
  have h: "fac0 \<in> set (users s0) \<and> role fac0 = faculty \<and>
    user.department fac0 = Some ''CSE'' \<and> user.isActive fac0 \<and>
    departmentCode fac0 = Some ''U2FsdGVkX1-cse'' \<and>
    AES_decrypt_Utf8 env0 ''U2FsdGVkX1-cse'' (ENCRYPTION_KEY env0) = Inr ''CSE2024ABC'' \<and>
    findById user.oid (user.oid stud0) (users s0) = Some stud0 \<and>
    userSaveAccepted env0 (stud0\<lparr>user.department := Some ''CSE''\<rparr>)"
    by (simp add: installation findById_def)
  with verifyDepartmentCode_decision [of env0 stud0 "''CSE2024ABC''" "''CSE''" s0]
  have ok: "success (fst (verifyDepartmentCode env0 stud0 ''CSE2024ABC'' ''CSE'' s0))"
    by blast
  have wrongCase:
    "status (fst (verifyDepartmentCode env0 stud0 ''cse2024abc'' ''CSE'' s0)) = Some 401"
    by (simp add: installation verifyDepartmentCode_def activeFaculty_def
                  getDecryptedDepartmentCode_def)
  have nobody:
    "status (fst (verifyDepartmentCode env0 stud0 ''CSE2024ABC'' ''IT'' s0)) = Some 404"
    by (simp add: installation verifyDepartmentCode_def activeFaculty_def)
  from h ok wrongCase nobody show ?thesis by blast
qed

text \<open>
  Claim C1 as stated does not hold: an active faculty member of CSE stores a secret that
  decrypts to the candidate code, and the answer is 500, not a success, for a requester
  without a department whose record is not stored, and for one whose save is refused.
\<close>

theorem verifyDepartmentCode_match_answers_500:
  "fac0 \<in> set (users s0) \<and> role fac0 = faculty \<and> user.department fac0 = Some ''CSE'' \<and>
   user.isActive fac0 \<and> departmentCode fac0 = Some ''U2FsdGVkX1-cse'' \<and>
   AES_decrypt_Utf8 env0 ''U2FsdGVkX1-cse'' (ENCRYPTION_KEY env0) = Inr ''CSE2024ABC'' \<and>
   verifyDepartmentCode env0 ghost ''CSE2024ABC'' ''CSE'' s0 =
     (Json 500 False ''Error verifying department code'' (ErrorData TypeError), s0) \<and>
   AES_decrypt_Utf8 envNoUserSave ''U2FsdGVkX1-cse'' (ENCRYPTION_KEY envNoUserSave) =
     Inr ''CSE2024ABC'' \<and>
   verifyDepartmentCode envNoUserSave stud0 ''CSE2024ABC'' ''CSE'' s0 =
     (Json 500 False ''Error verifying department code'' (ErrorData SaveError), s0)"
  by (simp add: installation verifyDepartmentCode_def activeFaculty_def
                getDecryptedDepartmentCode_def truthy_def findById_def save_user_def)

text \<open>
  Claim C9. A successful \<^verbatim>\<open>verifyDepartmentCode\<close> of a requester whose department is
  undefined or empty writes the verified department into the requester's stored record and
  changes no other record; a call that does not succeed, and a call of a requester who has
  a department already, leave the whole state as it was.
\<close>

theorem verifyDepartmentCode_sets_department:
  "(success (fst (verifyDepartmentCode env reqUser code dept s)) \<and>
      \<not> truthy (user.department reqUser) \<longrightarrow>
      (\<exists>found. findById user.oid (user.oid reqUser) (users s) = Some found \<and>
         snd (verifyDepartmentCode env reqUser code dept s) =
           s\<lparr>users := put user.oid (found\<lparr>user.department := Some dept\<rparr>) (users s)\<rparr> \<and>
         findById user.oid (user.oid reqUser)
             (users (snd (verifyDepartmentCode env reqUser code dept s))) =
           Some (found\<lparr>user.department := Some dept\<rparr>) \<and>
         (\<forall>i. i \<noteq> user.oid reqUser \<longrightarrow>
            findById user.oid i (users (snd (verifyDepartmentCode env reqUser code dept s))) =
            findById user.oid i (users s))))
   \<and> (\<not> success (fst (verifyDepartmentCode env reqUser code dept s)) \<or>
        truthy (user.department reqUser) \<longrightarrow>
        snd (verifyDepartmentCode env reqUser code dept s) = s)"
  by (auto simp: verifyDepartmentCode_def Let_def save_user_def findById_put
           dest!: findById_Some split: option.splits sum.splits if_splits)

theorem verifyDepartmentCode_sets_department_witness:
  "success (fst (verifyDepartmentCode env0 stud0 ''CSE2024ABC'' ''CSE'' s0)) \<and>
   \<not> truthy (user.department stud0) \<and>
   findById user.oid (user.oid stud0)
       (users (snd (verifyDepartmentCode env0 stud0 ''CSE2024ABC'' ''CSE'' s0))) =
     Some (stud0\<lparr>user.department := Some ''CSE''\<rparr>) \<and>
   \<not> success (fst (verifyDepartmentCode env0 stud0 ''cse2024abc'' ''CSE'' s0)) \<and>
   snd (verifyDepartmentCode env0 stud0 ''cse2024abc'' ''CSE'' s0) = s0 \<and>
   truthy (user.department fac1) \<and>
   snd (verifyDepartmentCode env0 fac1 ''CSE2024ABC'' ''CSE'' s0) = s0"
proof -
  have ok: "success (fst (verifyDepartmentCode env0 stud0 ''CSE2024ABC'' ''CSE'' s0))"
    by (simp add: installation verifyDepartmentCode_def activeFaculty_def
                  getDecryptedDepartmentCode_def truthy_def findById_def save_user_def)
  have unset: "\<not> truthy (user.department stud0)"
    by (simp add: installation truthy_def)
  have here: "findById user.oid (user.oid stud0) (users s0) = Some stud0"
    by (simp add: installation findById_def)
  from verifyDepartmentCode_sets_department [of env0 stud0 "''CSE2024ABC''" "''CSE''" s0]
    ok unset here
  have stored: "findById user.oid (user.oid stud0)
       (users (snd (verifyDepartmentCode env0 stud0 ''CSE2024ABC'' ''CSE'' s0))) =
     Some (stud0\<lparr>user.department := Some ''CSE''\<rparr>)"
    by auto
  have bad: "\<not> success (fst (verifyDepartmentCode env0 stud0 ''cse2024abc'' ''CSE'' s0))"
    by (simp add: installation verifyDepartmentCode_def activeFaculty_def
                  getDecryptedDepartmentCode_def)
  with verifyDepartmentCode_sets_department [of env0 stud0 "''cse2024abc''" "''CSE''" s0]
  have same: "snd (verifyDepartmentCode env0 stud0 ''cse2024abc'' ''CSE'' s0) = s0"
    by blast
  have has: "truthy (user.department fac1)"
    by (simp add: installation truthy_def)
  with verifyDepartmentCode_sets_department [of env0 fac1 "''CSE2024ABC''" "''CSE''" s0]
  have kept: "snd (verifyDepartmentCode env0 fac1 ''CSE2024ABC'' ''CSE'' s0) = s0"
    by blast
  from ok unset stored bad same has kept show ?thesis by blast
qed

section \<open>Folder access\<close>

lemma numberPlusOne_exact: "v < 2 ^ 53 \<Longrightarrow> numberPlusOne v = v + 1"
  by (simp add: numberPlusOne_def)

text \<open>
  Claim C3, as amended. \<^verbatim>\<open>accessFolder\<close> answers 500 when its parameter is not an
  ObjectId, 404 when it is one and no folder has it, 400 when the folder is inactive, and
  500 when the save of the folder is refused; in these four cases the state is as it was.
  When the folder is active and its save is accepted, the answer is a success that
  carries the folder's link, subject and owner name; the stored folder has its counter
  advanced by the \<^verbatim>\<open>Number\<close> addition of 1, which is one more for a counter below
  \<open>2^53\<close>, and its last access at the instant of the call; no other folder, no user
  and nothing at the provider changes; and the log has one new entry, the
  \<^verbatim>\<open>view_folder\<close> entry of the requester, if the log collection accepts that entry,
  and is as it was if not. The call succeeds in no other case.
\<close>

theorem accessFolder_contract:
  "(castObjectId env folderIdParam = None \<longrightarrow>
      accessFolder env now reqUser folderIdParam req s =
        (Json 500 False ''Error accessing folder'' (ErrorData CastError), s))
   \<and> (\<forall>folderId. castObjectId env folderIdParam = Some folderId \<and>
        findById folder.oid folderId (folders s) = None \<longrightarrow>
      accessFolder env now reqUser folderIdParam req s =
        (Json 404 False ''Folder not found'' NoData, s))
   \<and> (\<forall>folderId found. castObjectId env folderIdParam = Some folderId \<and>
        findById folder.oid folderId (folders s) = Some found \<and>
        \<not> folder.isActive found \<longrightarrow>
      accessFolder env now reqUser folderIdParam req s =
        (Json 400 False ''This folder is no longer available'' NoData, s))
   \<and> (\<forall>folderId found. castObjectId env folderIdParam = Some folderId \<and>
        findById folder.oid folderId (folders s) = Some found \<and>
        folder.isActive found \<and> \<not> folderSaveAccepted env (bumpView now found) \<longrightarrow>
      accessFolder env now reqUser folderIdParam req s =
        (Json 500 False ''Error accessing folder'' (ErrorData SaveError), s))
   \<and> (\<forall>folderId found. castObjectId env folderIdParam = Some folderId \<and>
        findById folder.oid folderId (folders s) = Some found \<and>
        folder.isActive found \<and> folderSaveAccepted env (bumpView now found) \<longrightarrow>
      fst (accessFolder env now reqUser folderIdParam req s) =
        Json 200 True ''Folder accessed''
          (AccessData (driveFolderLink found) (subject found) (facultyName found)) \<and>
      findById folder.oid folderId
          (folders (snd (accessFolder env now reqUser folderIdParam req s))) =
        Some (found\<lparr>viewCount := numberPlusOne (viewCount found),
                    lastAccessed := Some now\<rparr>) \<and>
      (viewCount found < 2 ^ 53 \<longrightarrow>
         viewsOf folderId (snd (accessFolder env now reqUser folderIdParam req s)) =
           Some (viewCount found + 1)) \<and>
      (\<forall>j. j \<noteq> folderId \<longrightarrow>
         findById folder.oid j
             (folders (snd (accessFolder env now reqUser folderIdParam req s))) =
         findById folder.oid j (folders s)) \<and>
      users (snd (accessFolder env now reqUser folderIdParam req s)) = users s \<and>
      driveCalls (snd (accessFolder env now reqUser folderIdParam req s)) = driveCalls s \<and>
      driveRoles (snd (accessFolder env now reqUser folderIdParam req s)) = driveRoles s \<and>
      logs (snd (accessFolder env now reqUser folderIdParam req s)) =
        (if logSaveAccepted env
              \<lparr> userId = user.oid reqUser, userName = name reqUser,
                userEmail = email reqUser, action = view_folder,
                details = ViewFolderDetails folderId (subject found)
                            (folder.department found) (semester found),
                ipAddress = orDefault (orElse (ip req) (remoteAddress req)) [],
                userAgent = orDefault (userAgentHeader req) [],
                createdAt = now \<rparr>
         then logs s @
              [\<lparr> userId = user.oid reqUser, userName = name reqUser,
                 userEmail = email reqUser, action = view_folder,
                 details = ViewFolderDetails folderId (subject found)
                             (folder.department found) (semester found),
                 ipAddress = orDefault (orElse (ip req) (remoteAddress req)) [],
                 userAgent = orDefault (userAgentHeader req) [],
                 createdAt = now \<rparr>]
         else logs s))
   \<and> (success (fst (accessFolder env now reqUser folderIdParam req s)) \<longrightarrow>
        (\<exists>folderId found. castObjectId env folderIdParam = Some folderId \<and>
           findById folder.oid folderId (folders s) = Some found \<and>
           folder.isActive found \<and> folderSaveAccepted env (bumpView now found)))"
proof -
  let ?r = "accessFolder env now reqUser folderIdParam req s"
  have none: "castObjectId env folderIdParam = None \<longrightarrow>
      ?r = (Json 500 False ''Error accessing folder'' (ErrorData CastError), s)"
    by (simp add: accessFolder_def)
  have absent: "\<forall>folderId. castObjectId env folderIdParam = Some folderId \<and>
        findById folder.oid folderId (folders s) = None \<longrightarrow>
      ?r = (Json 404 False ''Folder not found'' NoData, s)"
    by (simp add: accessFolder_def)
  have inactive: "\<forall>folderId found. castObjectId env folderIdParam = Some folderId \<and>
        findById folder.oid folderId (folders s) = Some found \<and>
        \<not> folder.isActive found \<longrightarrow>
      ?r = (Json 400 False ''This folder is no longer available'' NoData, s)"
    by (simp add: accessFolder_def)
  have refused: "\<forall>folderId found. castObjectId env folderIdParam = Some folderId \<and>
        findById folder.oid folderId (folders s) = Some found \<and>
        folder.isActive found \<and> \<not> folderSaveAccepted env (bumpView now found) \<longrightarrow>
      ?r = (Json 500 False ''Error accessing folder'' (ErrorData SaveError), s)"
    by (simp add: accessFolder_def incrementViewCount_def save_folder_def)
  have served: "\<forall>folderId found. castObjectId env folderIdParam = Some folderId \<and>
        findById folder.oid folderId (folders s) = Some found \<and>
        folder.isActive found \<and> folderSaveAccepted env (bumpView now found) \<longrightarrow>
      fst ?r =
        Json 200 True ''Folder accessed''
          (AccessData (driveFolderLink found) (subject found) (facultyName found)) \<and>
      findById folder.oid folderId (folders (snd ?r)) =
        Some (found\<lparr>viewCount := numberPlusOne (viewCount found),
                    lastAccessed := Some now\<rparr>) \<and>
      (viewCount found < 2 ^ 53 \<longrightarrow>
         viewsOf folderId (snd ?r) = Some (viewCount found + 1)) \<and>
      (\<forall>j. j \<noteq> folderId \<longrightarrow>
         findById folder.oid j (folders (snd ?r)) = findById folder.oid j (folders s)) \<and>
      users (snd ?r) = users s \<and>
      driveCalls (snd ?r) = driveCalls s \<and>
      driveRoles (snd ?r) = driveRoles s \<and>
      logs (snd ?r) =
        (if logSaveAccepted env
              \<lparr> userId = user.oid reqUser, userName = name reqUser,
                userEmail = email reqUser, action = view_folder,
                details = ViewFolderDetails folderId (subject found)
                            (folder.department found) (semester found),
                ipAddress = orDefault (orElse (ip req) (remoteAddress req)) [],
                userAgent = orDefault (userAgentHeader req) [],
                createdAt = now \<rparr>
         then logs s @
              [\<lparr> userId = user.oid reqUser, userName = name reqUser,
                 userEmail = email reqUser, action = view_folder,
                 details = ViewFolderDetails folderId (subject found)
                             (folder.department found) (semester found),
                 ipAddress = orDefault (orElse (ip req) (remoteAddress req)) [],
                 userAgent = orDefault (userAgentHeader req) [],
                 createdAt = now \<rparr>]
         else logs s)"
  proof (intro allI impI, elim conjE)
    fix folderId found
    assume a: "castObjectId env folderIdParam = Some folderId"
      "findById folder.oid folderId (folders s) = Some found"
      "folder.isActive found" "folderSaveAccepted env (bumpView now found)"
    let ?entry = "\<lparr> userId = user.oid reqUser, userName = name reqUser,
                userEmail = email reqUser, action = view_folder,
                details = ViewFolderDetails folderId (subject found)
                            (folder.department found) (semester found),
                ipAddress = orDefault (orElse (ip req) (remoteAddress req)) [],
                userAgent = orDefault (userAgentHeader req) [],
                createdAt = now \<rparr>"
    let ?s1 = "s\<lparr>folders := put folder.oid (bumpView now found) (folders s)\<rparr>"
    have k: "folder.oid found = folderId" using a(2) by (simp add: findById_Some)
    have kb: "folder.oid (bumpView now found) = folderId" using k by (simp add: bumpView_def)
    have r: "?r =
        (Json 200 True ''Folder accessed''
           (AccessData (driveFolderLink found) (subject found) (facultyName found)),
         if logSaveAccepted env ?entry then ?s1\<lparr>logs := logs s @ [?entry]\<rparr> else ?s1)"
      using a k
      by (simp add: accessFolder_def incrementViewCount_def save_folder_def createLog_def
                    Let_def bumpView_def)
    have f: "findById folder.oid j (folders ?s1) =
        (if j = folderId then Some (bumpView now found) else findById folder.oid j (folders s))"
      for j
      using kb by (simp add: findById_put)
    have g1: "fst ?r = Json 200 True ''Folder accessed''
          (AccessData (driveFolderLink found) (subject found) (facultyName found))"
      by (simp add: r)
    have fs: "folders (snd ?r) = folders ?s1" "users (snd ?r) = users s"
      "driveCalls (snd ?r) = driveCalls s" "driveRoles (snd ?r) = driveRoles s"
      by (simp_all add: r)
    have g2: "findById folder.oid folderId (folders (snd ?r)) =
        Some (found\<lparr>viewCount := numberPlusOne (viewCount found),
                    lastAccessed := Some now\<rparr>)"
      unfolding fs(1) f by (simp add: bumpView_def)
    have g3: "viewCount found < 2 ^ 53 \<longrightarrow>
         viewsOf folderId (snd ?r) = Some (viewCount found + 1)"
      unfolding viewsOf_def g2 by (simp add: numberPlusOne_exact)
    have g4: "\<forall>j. j \<noteq> folderId \<longrightarrow>
         findById folder.oid j (folders (snd ?r)) = findById folder.oid j (folders s)"
      unfolding fs(1) f by simp
    have g5: "logs (snd ?r) =
        (if logSaveAccepted env ?entry then logs s @ [?entry] else logs s)"
      by (simp add: r)
    from g1 g2 g3 g4 fs(2,3,4) g5
    show "fst ?r =
        Json 200 True ''Folder accessed''
          (AccessData (driveFolderLink found) (subject found) (facultyName found)) \<and>
      findById folder.oid folderId (folders (snd ?r)) =
        Some (found\<lparr>viewCount := numberPlusOne (viewCount found),
                    lastAccessed := Some now\<rparr>) \<and>
      (viewCount found < 2 ^ 53 \<longrightarrow>
         viewsOf folderId (snd ?r) = Some (viewCount found + 1)) \<and>
      (\<forall>j. j \<noteq> folderId \<longrightarrow>
         findById folder.oid j (folders (snd ?r)) = findById folder.oid j (folders s)) \<and>
      users (snd ?r) = users s \<and>
      driveCalls (snd ?r) = driveCalls s \<and>
      driveRoles (snd ?r) = driveRoles s \<and>
      logs (snd ?r) =
        (if logSaveAccepted env ?entry then logs s @ [?entry] else logs s)"
      by (intro conjI)
  qed
  have only: "success (fst ?r) \<longrightarrow>
        (\<exists>folderId found. castObjectId env folderIdParam = Some folderId \<and>
           findById folder.oid folderId (folders s) = Some found \<and>
           folder.isActive found \<and> folderSaveAccepted env (bumpView now found))"
  proof (cases "castObjectId env folderIdParam")
    case None
    then show ?thesis by (simp add: accessFolder_def)
  next
    case (Some folderId)
    show ?thesis
    proof (cases "findById folder.oid folderId (folders s)")
      case None
      with Some show ?thesis by (simp add: accessFolder_def)
    next
      case (Some found)
      with \<open>castObjectId env folderIdParam = Some folderId\<close> show ?thesis
        by (cases "folder.isActive found"; cases "folderSaveAccepted env (bumpView now found)")
           (simp_all add: accessFolder_def incrementViewCount_def save_folder_def)
    qed
  qed
  show ?thesis
    by (intro conjI) (fact none absent inactive refused served only)+
qed

theorem accessFolder_contract_witness:
  "castObjectId envSchema ''00000000000000000000000a'' = Some 10 \<and>
   findById folder.oid 10 (folders s0) = Some folder0 \<and> folder.isActive folder0 \<and>
   folderSaveAccepted envSchema (bumpView 5 folder0) \<and>
   fst (accessFolder envSchema 5 stud0 ''00000000000000000000000a'' req0 s0) =
     Json 200 True ''Folder accessed''
       (AccessData ''https://drive/drv-10'' ''Algorithms'' ''Asha'') \<and>
   findById folder.oid 10
       (folders (snd (accessFolder envSchema 5 stud0 ''00000000000000000000000a'' req0 s0))) =
     Some (folder0\<lparr>viewCount := 1, lastAccessed := Some 5\<rparr>) \<and>
   logs (snd (accessFolder envSchema 5 stud0 ''00000000000000000000000a'' req0 s0)) =
     [\<lparr> userId = 2, userName = ''Bala'', userEmail = ''bala@college.edu'',
        action = view_folder, details = ViewFolderDetails 10 ''Algorithms'' ''CSE'' 3,
        ipAddress = ''10.0.0.7'', userAgent = ''curl'', createdAt = 5 \<rparr>] \<and>
   castObjectId envSchema ''00000000000000000000000b'' = Some 11 \<and>
   findById folder.oid 11 (folders s0) = None \<and>
   accessFolder envSchema 5 stud0 ''00000000000000000000000b'' req0 s0 =
     (Json 404 False ''Folder not found'' NoData, s0)"
proof -
  let ?p = "''00000000000000000000000a''"
  let ?q = "''00000000000000000000000b''"
  have c: "castObjectId envSchema ?p = Some 10" "castObjectId envSchema ?q = Some 11"
    by (simp_all add: installation)
  have h: "findById folder.oid 10 (folders s0) = Some folder0 \<and> folder.isActive folder0 \<and>
      folderSaveAccepted envSchema (bumpView 5 folder0)"
    by (simp add: installation findById_def bumpView_def folderSchemaChecks_def
                  folderDepartments_def)
  have l: "logSaveAccepted envSchema
         \<lparr> userId = user.oid stud0, userName = name stud0, userEmail = email stud0,
           action = view_folder,
           details = ViewFolderDetails 10 (subject folder0) (folder.department folder0)
                       (semester folder0),
           ipAddress = orDefault (orElse (ip req0) (remoteAddress req0)) [],
           userAgent = orDefault (userAgentHeader req0) [],
           createdAt = 5 \<rparr>"
    by (simp add: installation logSchemaChecks_def)
  have n: "findById folder.oid 11 (folders s0) = None"
    by (simp add: installation findById_def)
  from accessFolder_contract [of envSchema ?p 5 stud0 req0 s0] c(1) h l
  have "fst (accessFolder envSchema 5 stud0 ?p req0 s0) =
        Json 200 True ''Folder accessed''
          (AccessData (driveFolderLink folder0) (subject folder0) (facultyName folder0)) \<and>
      findById folder.oid 10 (folders (snd (accessFolder envSchema 5 stud0 ?p req0 s0))) =
        Some (folder0\<lparr>viewCount := numberPlusOne (viewCount folder0),
                      lastAccessed := Some 5\<rparr>) \<and>
      logs (snd (accessFolder envSchema 5 stud0 ?p req0 s0)) =
         logs s0 @
         [\<lparr> userId = user.oid stud0, userName = name stud0, userEmail = email stud0,
            action = view_folder,
            details = ViewFolderDetails 10 (subject folder0) (folder.department folder0)
                        (semester folder0),
            ipAddress = orDefault (orElse (ip req0) (remoteAddress req0)) [],
            userAgent = orDefault (userAgentHeader req0) [],
            createdAt = 5 \<rparr>]"
    by simp
  then have p: "fst (accessFolder envSchema 5 stud0 ?p req0 s0) =
     Json 200 True ''Folder accessed''
       (AccessData ''https://drive/drv-10'' ''Algorithms'' ''Asha'') \<and>
   findById folder.oid 10 (folders (snd (accessFolder envSchema 5 stud0 ?p req0 s0))) =
     Some (folder0\<lparr>viewCount := 1, lastAccessed := Some 5\<rparr>) \<and>
   logs (snd (accessFolder envSchema 5 stud0 ?p req0 s0)) =
     [\<lparr> userId = 2, userName = ''Bala'', userEmail = ''bala@college.edu'',
        action = view_folder, details = ViewFolderDetails 10 ''Algorithms'' ''CSE'' 3,
        ipAddress = ''10.0.0.7'', userAgent = ''curl'', createdAt = 5 \<rparr>]"
    by (simp add: fac0_def stud0_def folder0_def req0_def s0_def orDefault_def orElse_def
                  truthy_def numberPlusOne_def)
  from accessFolder_contract [of envSchema ?q 5 stud0 req0 s0] c(2) n
  have q: "accessFolder envSchema 5 stud0 ?q req0 s0 =
      (Json 404 False ''Folder not found'' NoData, s0)"
    by simp
  from c h p n q show ?thesis by blast
qed

text \<open>
  Claim C3 as stated does not hold. With a log collection that refuses the entry, the
  access of an active folder succeeds and the log has no new entry. With a parameter that
  is not an ObjectId, so that no folder has it, the answer is 500, not 404.
\<close>

theorem accessFolder_silent_log_and_cast_error:
  "success (fst (accessFolder envNoLog 5 stud0 ''00000000000000000000000a'' req0 s0)) \<and>
   logs (snd (accessFolder envNoLog 5 stud0 ''00000000000000000000000a'' req0 s0)) = [] \<and>
   castObjectId env0 ''materials'' = None \<and>
   accessFolder env0 5 stud0 ''materials'' req0 s0 =
     (Json 500 False ''Error accessing folder'' (ErrorData CastError), s0)"
  by (simp add: installation accessFolder_def findById_def incrementViewCount_def
                save_folder_def createLog_def Let_def)

section \<open>Folder deletion and update\<close>

text \<open>
  Claim C6. When the folder exists and the requester is not its owner,
  \<^verbatim>\<open>deleteFolderById\<close> answers 403 and the state is the one before the call: the folder
  record is as it was, the trace of provider calls has no new entry, and the log has no
  new entry.
\<close>

theorem deleteFolderById_not_owner:
  "findById folder.oid folderId (folders s) = Some found \<Longrightarrow>
   facultyId found \<noteq> user.oid reqUser \<Longrightarrow>
   deleteFolderById env now reqUser folderId req s =
     (Json 403 False ''Not authorized to delete this folder'' NoData, s)"
  by (simp add: deleteFolderById_def)

theorem deleteFolderById_not_owner_witness:
  "findById folder.oid 10 (folders s0) = Some folder0 \<and>
   facultyId folder0 \<noteq> user.oid fac1 \<and>
   deleteFolderById env0 50 fac1 10 req0 s0 =
     (Json 403 False ''Not authorized to delete this folder'' NoData, s0)"
proof -
  have h1: "findById folder.oid 10 (folders s0) = Some folder0"
    by (simp add: installation findById_def)
  have h2: "facultyId folder0 \<noteq> user.oid fac1"
    by (simp add: installation)
  from deleteFolderById_not_owner [OF h1 h2, of env0 50 req0] h1 h2
  show ?thesis by blast
qed



section \<open>Failures of provider calls\<close>

lemma deleteFolderById_provider_down:
  assumes "findById folder.oid folderId (folders s) = Some found"
    and "facultyId found = user.oid reqUser"
    and "findById user.oid (user.oid reqUser) (users s) = Some fac"
    and "files_delete env (driveFolderId found) (tokensOf fac) = Inl e"
  shows "driveCalls (snd (deleteFolderById env now reqUser folderId req s)) =
           driveCalls s @ [FilesDelete (driveFolderId found) (tokensOf fac)] \<and>
         (folderSaveAccepted env (found\<lparr>folder.isActive := False\<rparr>) \<longrightarrow>
            fst (deleteFolderById env now reqUser folderId req s) =
              Json 200 True ''Folder deleted successfully'' NoData \<and>
            findById folder.oid folderId
                (folders (snd (deleteFolderById env now reqUser folderId req s))) =
              Some (found\<lparr>folder.isActive := False\<rparr>) \<and>
            logs (snd (deleteFolderById env now reqUser folderId req s)) =
              (if logSaveAccepted env
                    \<lparr> userId = user.oid fac, userName = name fac, userEmail = email fac,
                      action = delete_folder,
                      details = DeleteFolderDetails folderId (subject found),
                      ipAddress = orDefault (orElse (ip req) (remoteAddress req)) [],
                      userAgent = orDefault (userAgentHeader req) [], createdAt = now \<rparr>
               then logs s @
                    [\<lparr> userId = user.oid fac, userName = name fac, userEmail = email fac,
                       action = delete_folder,
                       details = DeleteFolderDetails folderId (subject found),
                       ipAddress = orDefault (orElse (ip req) (remoteAddress req)) [],
                       userAgent = orDefault (userAgentHeader req) [], createdAt = now \<rparr>]
               else logs s)) \<and>
         (\<not> folderSaveAccepted env (found\<lparr>folder.isActive := False\<rparr>) \<longrightarrow>
            fst (deleteFolderById env now reqUser folderId req s) =
              Json 500 False ''Error deleting folder'' (ErrorData SaveError) \<and>
            folders (snd (deleteFolderById env now reqUser folderId req s)) = folders s \<and>
            logs (snd (deleteFolderById env now reqUser folderId req s)) = logs s)"
proof -
  let ?r = "deleteFolderById env now reqUser folderId req s"
  let ?gone = "found\<lparr>folder.isActive := False\<rparr>"
  let ?entry = "\<lparr> userId = user.oid fac, userName = name fac, userEmail = email fac,
                      action = delete_folder,
                      details = DeleteFolderDetails folderId (subject found),
                      ipAddress = orDefault (orElse (ip req) (remoteAddress req)) [],
                      userAgent = orDefault (userAgentHeader req) [], createdAt = now \<rparr>"
  let ?s1 = "issue (FilesDelete (driveFolderId found) (tokensOf fac)) s"
  let ?s2 = "?s1\<lparr>folders := put folder.oid ?gone (folders s)\<rparr>"
  have k: "folder.oid found = folderId" using assms(1) by (simp add: findById_Some)
  have yes: "?r = (Json 200 True ''Folder deleted successfully'' NoData,
                   if logSaveAccepted env ?entry then ?s2\<lparr>logs := logs s @ [?entry]\<rparr> else ?s2)"
    if "folderSaveAccepted env ?gone"
    using assms k that
    by (simp add: deleteFolderById_def deleteFolder_def save_folder_def Let_def createLog_def
                  issue_def)
  have no: "?r = (Json 500 False ''Error deleting folder'' (ErrorData SaveError), ?s1)"
    if "\<not> folderSaveAccepted env ?gone"
    using assms that
    by (simp add: deleteFolderById_def deleteFolder_def save_folder_def Let_def)
  have calls: "driveCalls (snd ?r) =
      driveCalls s @ [FilesDelete (driveFolderId found) (tokensOf fac)]"
    by (cases "folderSaveAccepted env ?gone") (simp_all add: yes no issue_def)
  have accepted: "folderSaveAccepted env ?gone \<longrightarrow>
            fst ?r = Json 200 True ''Folder deleted successfully'' NoData \<and>
            findById folder.oid folderId (folders (snd ?r)) = Some ?gone \<and>
            logs (snd ?r) =
              (if logSaveAccepted env ?entry then logs s @ [?entry] else logs s)"
    using k by (simp add: yes issue_def findById_put)
  have refused: "\<not> folderSaveAccepted env ?gone \<longrightarrow>
            fst ?r = Json 500 False ''Error deleting folder'' (ErrorData SaveError) \<and>
            folders (snd ?r) = folders s \<and> logs (snd ?r) = logs s"
    by (simp add: no issue_def)
  from calls accepted refused show ?thesis by (intro conjI)
qed

lemma createNewFolder_provider_down:
  assumes "findById user.oid (user.oid reqUser) (users s) = Some fac"
    and "truthy (accessToken (googleTokens fac))"
  shows "files_create env (dept @ ''_SEM'' @ decimal sem @ ''_'' @ subj) (tokensOf fac) =
           Inl e \<Longrightarrow>
         fst (createNewFolder env now reqUser dept sem subj perms descr req s) =
           Json 500 False ''Error creating folder''
             (ErrorData (Error ''Failed to create folder in Google Drive''))"
    and "files_create env (dept @ ''_SEM'' @ decimal sem @ ''_'' @ subj) (tokensOf fac) =
           Inr created \<Longrightarrow>
         permissions_create env (file_id created) (permissionMap (orDefault perms ''view''))
           (tokensOf fac) = Inl e \<Longrightarrow>
         fst (createNewFolder env now reqUser dept sem subj perms descr req s) =
           Json 500 False ''Error creating folder''
             (ErrorData (Error ''Failed to set folder permissions''))"
  using assms
  by (auto simp: createNewFolder_def createFolder_def setFolderPermissions_def issue_def
           simp del: decimal.simps)

lemma updateFolder_provider_down:
  assumes "findById folder.oid folderId (folders s) = Some found"
    and "facultyId found = user.oid reqUser"
    and "findById user.oid (user.oid reqUser) (users s) = Some fac"
    and "p \<noteq> []" and "p \<noteq> permissions found"
    and "permissions_create env (driveFolderId found) (permissionMap p) (tokensOf fac) = Inl e"
  shows "fst (updateFolder env reqUser folderId usubj (Some p) udescr s) =
           Json 500 False ''Error updating folder''
             (ErrorData (Error ''Failed to set folder permissions''))"
  using assms by (simp add: updateFolder_def setFolderPermissions_def)

text \<open>
  Claim C7, as amended. When the owner, whose record is stored, deletes a folder and the
  provider's \<^verbatim>\<open>files.delete\<close> fails, the failure is swallowed and the handler goes
  on to the save of the folder. If that save is accepted, the answer is a success, the
  stored folder is inactive, and the log has one new entry, the \<^verbatim>\<open>delete_folder\<close>
  entry of the owner, if the log collection accepts that entry, and is as it was if not.
  If that save is refused, the answer is 500 and the folder and the log are as they were.
  A failing provider call propagates everywhere else but in the existence check:
  \<^verbatim>\<open>createFolder\<close>, \<^verbatim>\<open>setFolderPermissions\<close>, \<^verbatim>\<open>deleteFolder\<close> and
  \<^verbatim>\<open>getFolderDetails\<close> throw, and \<^verbatim>\<open>createNewFolder\<close> and \<^verbatim>\<open>updateFolder\<close>
  answer 500 with the error, whereas \<^verbatim>\<open>checkFolderExists\<close> returns false for a
  failing call and throws nothing.
\<close>

theorem provider_failure_policy:
  "(\<forall>found fac e.
      findById folder.oid folderId (folders s) = Some found \<and>
      facultyId found = user.oid reqUser \<and>
      findById user.oid (user.oid reqUser) (users s) = Some fac \<and>
      files_delete env (driveFolderId found) (tokensOf fac) = Inl e \<longrightarrow>
      driveCalls (snd (deleteFolderById env now reqUser folderId req s)) =
        driveCalls s @ [FilesDelete (driveFolderId found) (tokensOf fac)] \<and>
      (folderSaveAccepted env (found\<lparr>folder.isActive := False\<rparr>) \<longrightarrow>
         fst (deleteFolderById env now reqUser folderId req s) =
           Json 200 True ''Folder deleted successfully'' NoData \<and>
         findById folder.oid folderId
             (folders (snd (deleteFolderById env now reqUser folderId req s))) =
           Some (found\<lparr>folder.isActive := False\<rparr>) \<and>
         logs (snd (deleteFolderById env now reqUser folderId req s)) =
           (if logSaveAccepted env
                 \<lparr> userId = user.oid fac, userName = name fac, userEmail = email fac,
                   action = delete_folder,
                   details = DeleteFolderDetails folderId (subject found),
                   ipAddress = orDefault (orElse (ip req) (remoteAddress req)) [],
                   userAgent = orDefault (userAgentHeader req) [], createdAt = now \<rparr>
            then logs s @
                 [\<lparr> userId = user.oid fac, userName = name fac, userEmail = email fac,
                    action = delete_folder,
                    details = DeleteFolderDetails folderId (subject found),
                    ipAddress = orDefault (orElse (ip req) (remoteAddress req)) [],
                    userAgent = orDefault (userAgentHeader req) [], createdAt = now \<rparr>]
            else logs s)) \<and>
      (\<not> folderSaveAccepted env (found\<lparr>folder.isActive := False\<rparr>) \<longrightarrow>
         fst (deleteFolderById env now reqUser folderId req s) =
           Json 500 False ''Error deleting folder'' (ErrorData SaveError) \<and>
         folders (snd (deleteFolderById env now reqUser folderId req s)) = folders s \<and>
         logs (snd (deleteFolderById env now reqUser folderId req s)) = logs s))
   \<and> (\<forall>fac e.
      findById user.oid (user.oid reqUser) (users s) = Some fac \<and>
      truthy (accessToken (googleTokens fac)) \<and>
      files_create env (dept @ ''_SEM'' @ decimal sem @ ''_'' @ subj) (tokensOf fac) = Inl e \<longrightarrow>
      fst (createNewFolder env now reqUser dept sem subj perms descr req s) =
        Json 500 False ''Error creating folder''
          (ErrorData (Error ''Failed to create folder in Google Drive'')))
   \<and> (\<forall>fac created e.
      findById user.oid (user.oid reqUser) (users s) = Some fac \<and>
      truthy (accessToken (googleTokens fac)) \<and>
      files_create env (dept @ ''_SEM'' @ decimal sem @ ''_'' @ subj) (tokensOf fac) =
        Inr created \<and>
      permissions_create env (file_id created) (permissionMap (orDefault perms ''view''))
        (tokensOf fac) = Inl e \<longrightarrow>
      fst (createNewFolder env now reqUser dept sem subj perms descr req s) =
        Json 500 False ''Error creating folder''
          (ErrorData (Error ''Failed to set folder permissions'')))
   \<and> (\<forall>found fac p e.
      findById folder.oid folderId (folders s) = Some found \<and>
      facultyId found = user.oid reqUser \<and>
      findById user.oid (user.oid reqUser) (users s) = Some fac \<and>
      p \<noteq> [] \<and> p \<noteq> permissions found \<and>
      permissions_create env (driveFolderId found) (permissionMap p) (tokensOf fac) = Inl e \<longrightarrow>
      fst (updateFolder env reqUser folderId usubj (Some p) udescr s) =
        Json 500 False ''Error updating folder''
          (ErrorData (Error ''Failed to set folder permissions'')))
   \<and> (\<forall>e. files_create env nm creds = Inl e \<longrightarrow>
      fst (createFolder env nm creds s) = Inl (Error ''Failed to create folder in Google Drive''))
   \<and> (\<forall>e. permissions_create env fileId (permissionMap perm) creds = Inl e \<longrightarrow>
      fst (setFolderPermissions env fileId perm creds s) =
        Inl (Error ''Failed to set folder permissions''))
   \<and> (\<forall>e. files_delete env fileId creds = Inl e \<longrightarrow>
      fst (deleteFolder env fileId creds s) =
        Inl (Error ''Failed to delete folder from Google Drive''))
   \<and> (\<forall>e. files_get_details env fileId creds = Inl e \<longrightarrow>
      fst (getFolderDetails env fileId creds s) = Inl (Error ''Failed to get folder details''))
   \<and> (\<forall>e. files_get_trashed env fileId creds = Inl e \<longrightarrow>
      fst (checkFolderExists env fileId creds s) = Inr False)"
proof -
  have del: "\<forall>found fac e.
      findById folder.oid folderId (folders s) = Some found \<and>
      facultyId found = user.oid reqUser \<and>
      findById user.oid (user.oid reqUser) (users s) = Some fac \<and>
      files_delete env (driveFolderId found) (tokensOf fac) = Inl e \<longrightarrow>
      driveCalls (snd (deleteFolderById env now reqUser folderId req s)) =
        driveCalls s @ [FilesDelete (driveFolderId found) (tokensOf fac)] \<and>
      (folderSaveAccepted env (found\<lparr>folder.isActive := False\<rparr>) \<longrightarrow>
         fst (deleteFolderById env now reqUser folderId req s) =
           Json 200 True ''Folder deleted successfully'' NoData \<and>
         findById folder.oid folderId
             (folders (snd (deleteFolderById env now reqUser folderId req s))) =
           Some (found\<lparr>folder.isActive := False\<rparr>) \<and>
         logs (snd (deleteFolderById env now reqUser folderId req s)) =
           (if logSaveAccepted env
                 \<lparr> userId = user.oid fac, userName = name fac, userEmail = email fac,
                   action = delete_folder,
                   details = DeleteFolderDetails folderId (subject found),
                   ipAddress = orDefault (orElse (ip req) (remoteAddress req)) [],
                   userAgent = orDefault (userAgentHeader req) [], createdAt = now \<rparr>
            then logs s @
                 [\<lparr> userId = user.oid fac, userName = name fac, userEmail = email fac,
                    action = delete_folder,
                    details = DeleteFolderDetails folderId (subject found),
                    ipAddress = orDefault (orElse (ip req) (remoteAddress req)) [],
                    userAgent = orDefault (userAgentHeader req) [], createdAt = now \<rparr>]
            else logs s)) \<and>
      (\<not> folderSaveAccepted env (found\<lparr>folder.isActive := False\<rparr>) \<longrightarrow>
         fst (deleteFolderById env now reqUser folderId req s) =
           Json 500 False ''Error deleting folder'' (ErrorData SaveError) \<and>
         folders (snd (deleteFolderById env now reqUser folderId req s)) = folders s \<and>
         logs (snd (deleteFolderById env now reqUser folderId req s)) = logs s)"
    by (intro allI impI, elim conjE, rule deleteFolderById_provider_down; assumption)
  have create1: "\<forall>fac e.
      findById user.oid (user.oid reqUser) (users s) = Some fac \<and>
      truthy (accessToken (googleTokens fac)) \<and>
      files_create env (dept @ ''_SEM'' @ decimal sem @ ''_'' @ subj) (tokensOf fac) = Inl e \<longrightarrow>
      fst (createNewFolder env now reqUser dept sem subj perms descr req s) =
        Json 500 False ''Error creating folder''
          (ErrorData (Error ''Failed to create folder in Google Drive''))"
    by (intro allI impI, elim conjE, rule createNewFolder_provider_down(1); assumption)
  have create2: "\<forall>fac created e.
      findById user.oid (user.oid reqUser) (users s) = Some fac \<and>
      truthy (accessToken (googleTokens fac)) \<and>
      files_create env (dept @ ''_SEM'' @ decimal sem @ ''_'' @ subj) (tokensOf fac) =
        Inr created \<and>
      permissions_create env (file_id created) (permissionMap (orDefault perms ''view''))
        (tokensOf fac) = Inl e \<longrightarrow>
      fst (createNewFolder env now reqUser dept sem subj perms descr req s) =
        Json 500 False ''Error creating folder''
          (ErrorData (Error ''Failed to set folder permissions''))"
    by (intro allI impI, elim conjE, rule createNewFolder_provider_down(2); assumption)
  have upd: "\<forall>found fac p e.
      findById folder.oid folderId (folders s) = Some found \<and>
      facultyId found = user.oid reqUser \<and>
      findById user.oid (user.oid reqUser) (users s) = Some fac \<and>
      p \<noteq> [] \<and> p \<noteq> permissions found \<and>
      permissions_create env (driveFolderId found) (permissionMap p) (tokensOf fac) = Inl e \<longrightarrow>
      fst (updateFolder env reqUser folderId usubj (Some p) udescr s) =
        Json 500 False ''Error updating folder''
          (ErrorData (Error ''Failed to set folder permissions''))"
    by (intro allI impI, elim conjE, rule updateFolder_provider_down; assumption)
  have g1: "\<forall>e. files_create env nm creds = Inl e \<longrightarrow>
      fst (createFolder env nm creds s) = Inl (Error ''Failed to create folder in Google Drive'')"
    by (simp add: createFolder_def)
  have g2: "\<forall>e. permissions_create env fileId (permissionMap perm) creds = Inl e \<longrightarrow>
      fst (setFolderPermissions env fileId perm creds s) =
        Inl (Error ''Failed to set folder permissions'')"
    by (simp add: setFolderPermissions_def)
  have g3: "\<forall>e. files_delete env fileId creds = Inl e \<longrightarrow>
      fst (deleteFolder env fileId creds s) =
        Inl (Error ''Failed to delete folder from Google Drive'')"
    by (simp add: deleteFolder_def)
  have g4: "\<forall>e. files_get_details env fileId creds = Inl e \<longrightarrow>
      fst (getFolderDetails env fileId creds s) = Inl (Error ''Failed to get folder details'')"
    by (simp add: getFolderDetails_def)
  have g5: "\<forall>e. files_get_trashed env fileId creds = Inl e \<longrightarrow>
      fst (checkFolderExists env fileId creds s) = Inr False"
    by (simp add: checkFolderExists_def)
  show ?thesis
    by (intro conjI) (fact del create1 create2 upd g1 g2 g3 g4 g5)+
qed

theorem provider_failure_policy_witness:
  "findById folder.oid 10 (folders s0) = Some folder0 \<and>
   facultyId folder0 = user.oid fac0 \<and>
   findById user.oid (user.oid fac0) (users s0) = Some fac0 \<and>
   files_delete envDown (driveFolderId folder0) (tokensOf fac0) = Inl (ApiError 503) \<and>
   folderSaveAccepted envDown (folder0\<lparr>folder.isActive := False\<rparr>) \<and>
   fst (deleteFolderById envDown 50 fac0 10 req0 s0) =
     Json 200 True ''Folder deleted successfully'' NoData \<and>
   findById folder.oid 10 (folders (snd (deleteFolderById envDown 50 fac0 10 req0 s0))) =
     Some (folder0\<lparr>folder.isActive := False\<rparr>) \<and>
   logs (snd (deleteFolderById envDown 50 fac0 10 req0 s0)) =
     [\<lparr> userId = 1, userName = ''Asha'', userEmail = ''asha@college.edu'',
        action = delete_folder, details = DeleteFolderDetails 10 ''Algorithms'',
        ipAddress = ''10.0.0.7'', userAgent = ''curl'', createdAt = 50 \<rparr>] \<and>
   fst (updateFolder envDown fac0 10 None (Some ''edit'') None s0) =
     Json 500 False ''Error updating folder''
       (ErrorData (Error ''Failed to set folder permissions''))"
proof -
  have h: "findById folder.oid 10 (folders s0) = Some folder0 \<and>
      facultyId folder0 = user.oid fac0 \<and>
      findById user.oid (user.oid fac0) (users s0) = Some fac0 \<and>
      files_delete envDown (driveFolderId folder0) (tokensOf fac0) = Inl (ApiError 503)"
    by (simp add: installation findById_def)
  have a: "folderSaveAccepted envDown (folder0\<lparr>folder.isActive := False\<rparr>)"
    by (simp add: installation)
  have l: "logSaveAccepted envDown
         \<lparr> userId = user.oid fac0, userName = name fac0, userEmail = email fac0,
           action = delete_folder, details = DeleteFolderDetails 10 (subject folder0),
           ipAddress = orDefault (orElse (ip req0) (remoteAddress req0)) [],
           userAgent = orDefault (userAgentHeader req0) [], createdAt = 50 \<rparr>"
    by (simp add: installation)
  have u: "''edit'' \<noteq> [] \<and> ''edit'' \<noteq> permissions folder0 \<and>
      permissions_create envDown (driveFolderId folder0) (permissionMap ''edit'')
        (tokensOf fac0) = Inl (ApiError 503)"
    by (simp add: installation)
  note pol = provider_failure_policy
    [of 10 s0 fac0 envDown 50 req0 "''CSE''" 3 "''Graphs''" None None None None
        "''n''" "(None, None)" "''f''" "''view''"]
  from pol h a
  have d: "fst (deleteFolderById envDown 50 fac0 10 req0 s0) =
        Json 200 True ''Folder deleted successfully'' NoData \<and>
      findById folder.oid 10 (folders (snd (deleteFolderById envDown 50 fac0 10 req0 s0))) =
        Some (folder0\<lparr>folder.isActive := False\<rparr>) \<and>
      logs (snd (deleteFolderById envDown 50 fac0 10 req0 s0)) =
         (if logSaveAccepted envDown
                 \<lparr> userId = user.oid fac0, userName = name fac0, userEmail = email fac0,
                   action = delete_folder,
                   details = DeleteFolderDetails 10 (subject folder0),
                   ipAddress = orDefault (orElse (ip req0) (remoteAddress req0)) [],
                   userAgent = orDefault (userAgentHeader req0) [], createdAt = 50 \<rparr>
          then logs s0 @
           [\<lparr> userId = user.oid fac0, userName = name fac0, userEmail = email fac0,
              action = delete_folder, details = DeleteFolderDetails 10 (subject folder0),
              ipAddress = orDefault (orElse (ip req0) (remoteAddress req0)) [],
              userAgent = orDefault (userAgentHeader req0) [], createdAt = 50 \<rparr>]
          else logs s0)"
    by blast
  with l have d': "logs (snd (deleteFolderById envDown 50 fac0 10 req0 s0)) =
     [\<lparr> userId = 1, userName = ''Asha'', userEmail = ''asha@college.edu'',
        action = delete_folder, details = DeleteFolderDetails 10 ''Algorithms'',
        ipAddress = ''10.0.0.7'', userAgent = ''curl'', createdAt = 50 \<rparr>]"
    by (simp add: fac0_def folder0_def req0_def s0_def orDefault_def orElse_def truthy_def)
  from pol h u
  have p: "fst (updateFolder envDown fac0 10 None (Some ''edit'') None s0) =
     Json 500 False ''Error updating folder''
       (ErrorData (Error ''Failed to set folder permissions''))"
    by blast
  from h a d d' p show ?thesis by blast
qed

text \<open>
  Claim C7 as stated does not hold. With a provider whose \<^verbatim>\<open>files.get\<close> fails,
  \<^verbatim>\<open>checkFolderExists\<close> returns false and its caller sees no error. With a failing
  provider, the owner's deletion succeeds and appends no entry when the log collection
  refuses it, and answers 500 and leaves the folder active when the save of the folder is
  refused.
\<close>

theorem checkFolderExists_swallows_failure:
  "files_get_trashed envDown ''drv-10'' (tokensOf fac0) = Inl (ApiError 503) \<and>
   fst (checkFolderExists envDown ''drv-10'' (tokensOf fac0) s0) = Inr False \<and>
   fst (deleteFolderById envDownNoLog 50 fac0 10 req0 s0) =
     Json 200 True ''Folder deleted successfully'' NoData \<and>
   logs (snd (deleteFolderById envDownNoLog 50 fac0 10 req0 s0)) = [] \<and>
   fst (deleteFolderById envDownNoFolderSave 50 fac0 10 req0 s0) =
     Json 500 False ''Error deleting folder'' (ErrorData SaveError) \<and>
   findById folder.oid 10
       (folders (snd (deleteFolderById envDownNoFolderSave 50 fac0 10 req0 s0))) =
     Some folder0"
  by (simp add: checkFolderExists_def installation deleteFolderById_def deleteFolder_def
                save_folder_def createLog_def issue_def findById_def Let_def)

section \<open>Credential bundle and initial role\<close>

text \<open>
  Claim C8. Each operation that stores a credential bundle takes the access token and the
  expiry instant from the issuer's answer together. \<^verbatim>\<open>googleCallback\<close> for an existing
  user stores the issuer's refresh token when the issuer supplies one (a non-empty string)
  and keeps the stored one otherwise; for a new user, who has none stored, it stores the
  issuer's refresh token as it is. \<^verbatim>\<open>refreshGoogleToken\<close> keeps the stored refresh
  token. So the stored refresh token changes only if the issuer supplied a new one.
\<close>

theorem credential_bundle_replacement:
  "(\<forall>c tokens userInfo u.
      code = Some c \<and> c \<noteq> [] \<and> getTokens env c = Inr tokens \<and>
      getUserInfo env (access_token tokens) = Inr userInfo \<and>
      findOneByEmail (profile_email userInfo) (users s) = Some u \<and>
      userSaveAccepted env (loggedIn now tokens userInfo u) \<longrightarrow>
      map_option googleTokens
        (findById user.oid (user.oid u) (users (snd (googleCallback env now code req s)))) =
        Some \<lparr> accessToken = access_token tokens,
               refreshToken = (if truthy (refresh_token tokens) then refresh_token tokens
                               else refreshToken (googleTokens u)),
               expiryDate = expiry_date tokens \<rparr>)
   \<and> (\<forall>c tokens userInfo.
      code = Some c \<and> c \<noteq> [] \<and> getTokens env c = Inr tokens \<and>
      getUserInfo env (access_token tokens) = Inr userInfo \<and>
      findOneByEmail (profile_email userInfo) (users s) = None \<and>
      userSaveAccepted env (newUser env now tokens userInfo (freshId user.oid (users s))) \<longrightarrow>
      map_option googleTokens
        (findById user.oid (freshId user.oid (users s))
           (users (snd (googleCallback env now code req s)))) =
        Some \<lparr> accessToken = access_token tokens,
               refreshToken = refresh_token tokens,
               expiryDate = expiry_date tokens \<rparr>)
   \<and> (\<forall>u stored newTokens.
      findById user.oid (user.oid reqUser) (users s) = Some u \<and>
      refreshToken (googleTokens u) = Some stored \<and> stored \<noteq> [] \<and>
      refreshAccessToken env stored = Inr newTokens \<and>
      userSaveAccepted env
        (u\<lparr>googleTokens := (googleTokens u)\<lparr>accessToken := access_token newTokens,
                                               expiryDate := expiry_date newTokens\<rparr>\<rparr>) \<longrightarrow>
      fst (refreshGoogleToken env reqUser s) =
        Json 200 True ''Token refreshed successfully'' NoData \<and>
      map_option googleTokens
        (findById user.oid (user.oid reqUser) (users (snd (refreshGoogleToken env reqUser s)))) =
        Some \<lparr> accessToken = access_token newTokens,
               refreshToken = Some stored,
               expiryDate = expiry_date newTokens \<rparr>)"
proof -
  have existing: "\<forall>c tokens userInfo u.
      code = Some c \<and> c \<noteq> [] \<and> getTokens env c = Inr tokens \<and>
      getUserInfo env (access_token tokens) = Inr userInfo \<and>
      findOneByEmail (profile_email userInfo) (users s) = Some u \<and>
      userSaveAccepted env (loggedIn now tokens userInfo u) \<longrightarrow>
      map_option googleTokens
        (findById user.oid (user.oid u) (users (snd (googleCallback env now code req s)))) =
        Some \<lparr> accessToken = access_token tokens,
               refreshToken = (if truthy (refresh_token tokens) then refresh_token tokens
                               else refreshToken (googleTokens u)),
               expiryDate = expiry_date tokens \<rparr>"
    by (simp add: googleCallback_def save_user_def createLog_def Let_def findById_put
                  loggedIn_def orElse_def)
  have created: "\<forall>c tokens userInfo.
      code = Some c \<and> c \<noteq> [] \<and> getTokens env c = Inr tokens \<and>
      getUserInfo env (access_token tokens) = Inr userInfo \<and>
      findOneByEmail (profile_email userInfo) (users s) = None \<and>
      userSaveAccepted env (newUser env now tokens userInfo (freshId user.oid (users s))) \<longrightarrow>
      map_option googleTokens
        (findById user.oid (freshId user.oid (users s))
           (users (snd (googleCallback env now code req s)))) =
        Some \<lparr> accessToken = access_token tokens,
               refreshToken = refresh_token tokens,
               expiryDate = expiry_date tokens \<rparr>"
    by (simp add: googleCallback_def save_user_def createLog_def Let_def findById_put
                  newUser_def)
  have refreshed: "\<forall>u stored newTokens.
      findById user.oid (user.oid reqUser) (users s) = Some u \<and>
      refreshToken (googleTokens u) = Some stored \<and> stored \<noteq> [] \<and>
      refreshAccessToken env stored = Inr newTokens \<and>
      userSaveAccepted env
        (u\<lparr>googleTokens := (googleTokens u)\<lparr>accessToken := access_token newTokens,
                                               expiryDate := expiry_date newTokens\<rparr>\<rparr>) \<longrightarrow>
      fst (refreshGoogleToken env reqUser s) =
        Json 200 True ''Token refreshed successfully'' NoData \<and>
      map_option googleTokens
        (findById user.oid (user.oid reqUser) (users (snd (refreshGoogleToken env reqUser s)))) =
        Some \<lparr> accessToken = access_token newTokens,
               refreshToken = Some stored,
               expiryDate = expiry_date newTokens \<rparr>"
  proof (intro allI impI, elim conjE)
    fix u stored newTokens
    assume a: "findById user.oid (user.oid reqUser) (users s) = Some u"
      "refreshToken (googleTokens u) = Some stored" "stored \<noteq> []"
      "refreshAccessToken env stored = Inr newTokens"
      "userSaveAccepted env
        (u\<lparr>googleTokens := (googleTokens u)\<lparr>accessToken := access_token newTokens,
                                               expiryDate := expiry_date newTokens\<rparr>\<rparr>)"
    from a(1) have k: "user.oid u = user.oid reqUser" by (simp add: findById_Some)
    from a k show "fst (refreshGoogleToken env reqUser s) =
        Json 200 True ''Token refreshed successfully'' NoData \<and>
      map_option googleTokens
        (findById user.oid (user.oid reqUser) (users (snd (refreshGoogleToken env reqUser s)))) =
        Some \<lparr> accessToken = access_token newTokens,
               refreshToken = Some stored,
               expiryDate = expiry_date newTokens \<rparr>"
      by (simp add: refreshGoogleToken_def save_user_def findById_put)
  qed
  show ?thesis
    by (intro conjI) (fact existing created refreshed)+
qed

theorem credential_bundle_replacement_witness:
  "getTokens envAsha ''code-1'' =
     Inr \<lparr>access_token = Some ''at-2'', refresh_token = None, expiry_date = Some 2000\<rparr> \<and>
   findOneByEmail ''asha@college.edu'' (users s0) = Some fac0 \<and>
   map_option googleTokens
     (findById user.oid 1 (users (snd (googleCallback envAsha 9 (Some ''code-1'') req0 s0)))) =
     Some \<lparr>accessToken = Some ''at-2'', refreshToken = Some ''rt-1'', expiryDate = Some 2000\<rparr> \<and>
   getTokens envAshaRotate ''code-1'' =
     Inr \<lparr>access_token = Some ''at-2'', refresh_token = Some ''rt-9'',
          expiry_date = Some 2000\<rparr> \<and>
   map_option googleTokens
     (findById user.oid 1
        (users (snd (googleCallback envAshaRotate 9 (Some ''code-1'') req0 s0)))) =
     Some \<lparr>accessToken = Some ''at-2'', refreshToken = Some ''rt-9'', expiryDate = Some 2000\<rparr> \<and>
   refreshAccessToken env0 ''rt-1'' =
     Inr \<lparr>access_token = Some ''at-3'', refresh_token = Some ''rt-3'',
          expiry_date = Some 3000\<rparr> \<and>
   map_option googleTokens
     (findById user.oid 1 (users (snd (refreshGoogleToken env0 fac0 s0)))) =
     Some \<lparr>accessToken = Some ''at-3'', refreshToken = Some ''rt-1'', expiryDate = Some 3000\<rparr>"
proof -
  let ?t1 = "\<lparr>access_token = Some ''at-2'', refresh_token = None, expiry_date = Some 2000\<rparr>"
  let ?t2 = "\<lparr>access_token = Some ''at-2'', refresh_token = Some ''rt-9'',
              expiry_date = Some 2000\<rparr>"
  let ?t3 = "\<lparr>access_token = Some ''at-3'', refresh_token = Some ''rt-3'',
              expiry_date = Some 3000\<rparr>"
  let ?asha = "\<lparr>profile_id = ''g-1'', profile_name = ''Asha'',
                profile_email = ''asha@college.edu'', picture = Some ''pic-1''\<rparr>"
  have e: "findOneByEmail ''asha@college.edu'' (users s0) = Some fac0"
    by code_simp
  have i: "user.oid fac0 = 1" "refreshToken (googleTokens fac0) = Some ''rt-1''"
    "findById user.oid (user.oid fac0) (users s0) = Some fac0"
    by (simp_all add: installation findById_def)
  have a1: "getTokens envAsha ''code-1'' = Inr ?t1"
    "getUserInfo envAsha (access_token ?t1) = Inr ?asha"
    "userSaveAccepted envAsha (loggedIn 9 ?t1 ?asha fac0)"
    by (simp_all add: installation getTokens_def getUserInfo_def)
  have a2: "getTokens envAshaRotate ''code-1'' = Inr ?t2"
    "getUserInfo envAshaRotate (access_token ?t2) = Inr ?asha"
    "userSaveAccepted envAshaRotate (loggedIn 9 ?t2 ?asha fac0)"
    by (simp_all add: installation getTokens_def getUserInfo_def)
  have a3: "refreshAccessToken env0 ''rt-1'' = Inr ?t3"
    "userSaveAccepted env0
       (fac0\<lparr>googleTokens := (googleTokens fac0)\<lparr>accessToken := access_token ?t3,
                                                    expiryDate := expiry_date ?t3\<rparr>\<rparr>)"
    by (simp_all add: installation refreshAccessToken_def)
  from credential_bundle_replacement [of "Some ''code-1''" envAsha s0 9 req0 fac0] a1 e
  have r1: "map_option googleTokens
     (findById user.oid (user.oid fac0)
        (users (snd (googleCallback envAsha 9 (Some ''code-1'') req0 s0)))) =
     Some \<lparr>accessToken = access_token ?t1,
           refreshToken = (if truthy (refresh_token ?t1) then refresh_token ?t1
                           else refreshToken (googleTokens fac0)),
           expiryDate = expiry_date ?t1\<rparr>"
    by simp
  from credential_bundle_replacement [of "Some ''code-1''" envAshaRotate s0 9 req0 fac0] a2 e
  have r2: "map_option googleTokens
     (findById user.oid (user.oid fac0)
        (users (snd (googleCallback envAshaRotate 9 (Some ''code-1'') req0 s0)))) =
     Some \<lparr>accessToken = access_token ?t2,
           refreshToken = (if truthy (refresh_token ?t2) then refresh_token ?t2
                           else refreshToken (googleTokens fac0)),
           expiryDate = expiry_date ?t2\<rparr>"
    by simp
  from credential_bundle_replacement [of "Some ''code-1''" env0 s0 9 req0 fac0] a3 i
  have r3: "map_option googleTokens
     (findById user.oid (user.oid fac0) (users (snd (refreshGoogleToken env0 fac0 s0)))) =
     Some \<lparr>accessToken = access_token ?t3, refreshToken = Some ''rt-1'',
           expiryDate = expiry_date ?t3\<rparr>"
    by simp
  from e a1(1) a2(1) a3(1) r1 r2 r3 show ?thesis
    unfolding i(1,2) by (simp add: truthy_def)
qed

text \<open>The document \<^verbatim>\<open>googleCallback\<close> builds for a new identity carries the role of
  the bootstrap administrator for its email and that of a student for any other.\<close>

lemma newUser_role:
  "(role (newUser env now tokens userInfo i) = admin \<longleftrightarrow>
      ADMIN_EMAIL env = Some (profile_email userInfo)) \<and>
   (role (newUser env now tokens userInfo i) = student \<longleftrightarrow>
      ADMIN_EMAIL env \<noteq> Some (profile_email userInfo)) \<and>
   role (newUser env now tokens userInfo i) \<noteq> faculty"
  by (simp add: newUser_def)

text \<open>The schema requires a department of a student and the new document has none.\<close>

lemma newUser_student_fails_checks:
  "ADMIN_EMAIL env \<noteq> Some (profile_email userInfo) \<Longrightarrow>
   \<not> userSchemaChecks (newUser env now tokens userInfo i)"
  by (simp add: newUser_def userSchemaChecks_def truthy_def)

text \<open>So a store that accepts only what passes the checks of the schema saves no new
  user but the bootstrap administrator: the first login of any other identity is
  redirected to the error page and adds no user.\<close>

lemma googleCallback_new_student_refused:
  assumes "code = Some c" and "c \<noteq> []" and "getTokens env c = Inr tokens"
    and "getUserInfo env (access_token tokens) = Inr userInfo"
    and "findOneByEmail (profile_email userInfo) (users s) = None"
    and "ADMIN_EMAIL env \<noteq> Some (profile_email userInfo)"
    and "\<forall>d. userSaveAccepted env d \<longrightarrow> userSchemaChecks d"
  shows "googleCallback env now code req s = (RedirectError SaveError, s)"
proof -
  have "\<not> userSaveAccepted env (newUser env now tokens userInfo (freshId user.oid (users s)))"
    using assms(7) newUser_student_fails_checks[OF assms(6)] by blast
  then show ?thesis
    using assms(1-5) by (simp add: googleCallback_def save_user_def)
qed

text \<open>
  Claim C10. The claim does not hold of the program: with a store that applies the
  validators of \<^verbatim>\<open>userSchema\<close>, the first login of an identity that is not the
  bootstrap administrator builds a user of role \<open>student\<close>, which the checks of the
  schema refuse for its missing department, answers with the redirect to the error page
  and leaves the state as it was, so that no student is created.
\<close>

theorem googleCallback_first_student_login_fails:
  "findOneByEmail ''ravi@college.edu'' (users s0) = None \<and>
   ADMIN_EMAIL envSchema = Some ''admin@college.edu'' \<and>
   role (newUser envSchema 9
           \<lparr>access_token = Some ''at-2'', refresh_token = None, expiry_date = Some 2000\<rparr>
           \<lparr>profile_id = ''g-9'', profile_name = ''Ravi'',
             profile_email = ''ravi@college.edu'', picture = None\<rparr> 4) = student \<and>
   \<not> userSchemaChecks
       (newUser envSchema 9
          \<lparr>access_token = Some ''at-2'', refresh_token = None, expiry_date = Some 2000\<rparr>
          \<lparr>profile_id = ''g-9'', profile_name = ''Ravi'',
            profile_email = ''ravi@college.edu'', picture = None\<rparr> 4) \<and>
   googleCallback envSchema 9 (Some ''code-1'') req0 s0 = (RedirectError SaveError, s0)"
proof -
  let ?t = "\<lparr>access_token = Some ''at-2'', refresh_token = None, expiry_date = Some 2000\<rparr>"
  let ?ravi = "\<lparr>profile_id = ''g-9'', profile_name = ''Ravi'',
                profile_email = ''ravi@college.edu'', picture = None\<rparr>"
  have n: "findOneByEmail ''ravi@college.edu'' (users s0) = None"
    by code_simp
  have a: "ADMIN_EMAIL envSchema = Some ''admin@college.edu''"
    "getTokens envSchema ''code-1'' = Inr ?t"
    "getUserInfo envSchema (access_token ?t) = Inr ?ravi"
    "\<forall>d. userSaveAccepted envSchema d \<longrightarrow> userSchemaChecks d"
    by (simp_all add: installation getTokens_def getUserInfo_def)
  have b: "ADMIN_EMAIL envSchema \<noteq> Some (profile_email ?ravi)" using a(1) by simp
  have n': "findOneByEmail (profile_email ?ravi) (users s0) = None" using n by simp
  have r: "role (newUser envSchema 9 ?t ?ravi 4) = student"
    using newUser_role[of envSchema 9 ?t ?ravi 4] b by blast
  have x: "\<not> userSchemaChecks (newUser envSchema 9 ?t ?ravi 4)"
    using b by (rule newUser_student_fails_checks)
  have g: "googleCallback envSchema 9 (Some ''code-1'') req0 s0 = (RedirectError SaveError, s0)"
    using googleCallback_new_student_refused[OF refl _ a(2) a(3) n' b a(4)] by simp
  from n a(1) r x g show ?thesis by blast
qed

section \<open>Access calls one after another and overlapping\<close>

lemma filter_update_length:
  "i < length xs \<Longrightarrow> \<not> P (xs ! i) \<Longrightarrow>
     length (filter P (xs[i := y])) = length (filter P xs) + (if P y then 1 else 0)"
proof (induction xs arbitrary: i)
  case Nil
  then show ?case by simp
next
  case (Cons x xs)
  show ?case
  proof (cases i)
    case 0
    with Cons.prems show ?thesis by simp
  next
    case (Suc j)
    with Cons.prems have "j < length xs" and "\<not> P (xs ! j)" by simp_all
    then have "length (filter P (xs[j := y])) = length (filter P xs) + (if P y then 1 else 0)"
      by (rule Cons.IH)
    with Suc show ?thesis by simp
  qed
qed

lemma doneCount_respond:
  "i < length calls \<Longrightarrow> snd (calls ! i) \<noteq> Responded \<Longrightarrow>
     doneCount (calls[i := (t, Responded)]) = Suc (doneCount calls)"
  unfolding doneCount_def by (simp add: filter_update_length)

lemma doneCount_load:
  "i < length calls \<Longrightarrow> snd (calls ! i) \<noteq> Responded \<Longrightarrow>
     doneCount (calls[i := (t, Loaded doc)]) = doneCount calls"
  unfolding doneCount_def by (simp add: filter_update_length)

lemma doneCount_less:
  "i < length calls \<Longrightarrow> snd (calls ! i) \<noteq> Responded \<Longrightarrow> doneCount calls < length calls"
  unfolding doneCount_def by (rule length_filter_less[of "calls ! i"]) simp_all

lemma doneCount_allWaiting: "allWaiting calls \<Longrightarrow> doneCount calls = 0"
  unfolding allWaiting_def doneCount_def by (induction calls) auto

lemma doneCount_allResponded: "allResponded calls \<Longrightarrow> doneCount calls = length calls"
  unfolding allResponded_def doneCount_def by (induction calls) auto

lemma allWaiting_nth: "allWaiting calls \<Longrightarrow> i < length calls \<Longrightarrow> snd (calls ! i) = Waiting"
  unfolding allWaiting_def by (simp add: list_all_length)

lemma sameFolder_refl: "sameFolder a a"
  by (simp add: sameFolder_def)

lemma sameFolder_fields:
  assumes "sameFolder a b"
  shows "folder.oid b = folder.oid a" and "folder.isActive b = folder.isActive a"
    and "b = a\<lparr>viewCount := viewCount b, lastAccessed := lastAccessed b\<rparr>"
  using assms by (cases a; cases b; simp add: sameFolder_def)+

lemma sameFolder_bump:
  assumes "sameFolder a b"
  shows "sameFolder a (bumpView t b)"
    and "bumpView t b = a\<lparr>viewCount := numberPlusOne (viewCount b), lastAccessed := Some t\<rparr>"
  using assms by (cases a; cases b; simp add: sameFolder_def bumpView_def)+

text \<open>
  What one event of the store does while the invariant holds: a read hands the stored
  folder to a waiting call, a save of a call that holds a document is applied and the call
  responds, and any other event changes nothing.
\<close>

lemma dbStep_cases:
  assumes acc: "\<forall>v t. folderSaveAccepted env (found\<lparr>viewCount := v, lastAccessed := Some t\<rparr>)"
    and act: "folder.isActive found"
    and inv: "roundTripInv found (s, calls)"
  shows
    "(\<exists>i t g. e = Read i \<and> i < length calls \<and> calls ! i = (t, Waiting) \<and>
        findById folder.oid (folder.oid found) (folders s) = Some g \<and>
        dbStep env (folder.oid found) e (s, calls) = (s, calls[i := (t, Loaded g)]) \<and>
        servedNow env e (s, calls) = [])
     \<or> (\<exists>i t doc. e = Write i \<and> i < length calls \<and> calls ! i = (t, Loaded doc) \<and>
        dbStep env (folder.oid found) e (s, calls) =
          (s\<lparr>folders := put folder.oid (bumpView t doc) (folders s)\<rparr>,
           calls[i := (t, Responded)]) \<and>
        servedNow env e (s, calls) = [i])
     \<or> (dbStep env (folder.oid found) e (s, calls) = (s, calls) \<and>
        servedNow env e (s, calls) = [])"
proof -
  from inv obtain g where
    g: "findById folder.oid (folder.oid found) (folders s) = Some g" "sameFolder found g"
    and L: "\<And>i t doc. i < length calls \<Longrightarrow> calls ! i = (t, Loaded doc) \<Longrightarrow>
           sameFolder found doc"
    unfolding roundTripInv_def by auto
  have ga: "folder.isActive g" using sameFolder_fields(2)[OF g(2)] act by simp
  show ?thesis
  proof (cases e)
    case (Read i)
    show ?thesis
    proof (cases "i < length calls \<and> snd (calls ! i) = Waiting")
      case True
      then obtain t where ci: "calls ! i = (t, Waiting)" by (cases "calls ! i") auto
      have "dbStep env (folder.oid found) e (s, calls) = (s, calls[i := (t, Loaded g)])"
        using True ci g(1) ga Read by simp
      moreover have "servedNow env e (s, calls) = []"
        using Read by (simp add: servedNow_def)
      ultimately show ?thesis using Read True ci g(1) by blast
    next
      case False
      then have "dbStep env (folder.oid found) e (s, calls) = (s, calls)"
        using Read by (cases "calls ! i"; cases "snd (calls ! i)") (auto split: pc.splits)
      moreover have "servedNow env e (s, calls) = []"
        using Read by (simp add: servedNow_def)
      ultimately show ?thesis by blast
    qed
  next
    case (Write i)
    show ?thesis
    proof (cases "i < length calls \<and> (\<exists>t doc. calls ! i = (t, Loaded doc))")
      case True
      then obtain t doc where ci: "calls ! i = (t, Loaded doc)" by auto
      from True have il: "i < length calls" by simp
      have ok: "folderSaveAccepted env (bumpView t doc)"
        unfolding sameFolder_bump(2)[OF L[OF il ci]] using acc by blast
      have "dbStep env (folder.oid found) e (s, calls) =
          (s\<lparr>folders := put folder.oid (bumpView t doc) (folders s)\<rparr>,
           calls[i := (t, Responded)])"
        using il ci Write ok by (simp add: incrementViewCount_def save_folder_def)
      moreover have "servedNow env e (s, calls) = [i]"
        using il ci Write ok by (simp add: servedNow_def writes_def)
      ultimately show ?thesis using Write il ci by blast
    next
      case False
      then have "dbStep env (folder.oid found) e (s, calls) = (s, calls)"
        using Write by (cases "calls ! i"; cases "snd (calls ! i)") (auto split: pc.splits)
      moreover have "servedNow env e (s, calls) = []"
        using Write False
        by (cases "calls ! i"; cases "snd (calls ! i)")
           (auto simp: servedNow_def writes_def split: pc.splits)
      ultimately show ?thesis by blast
    qed
  qed
qed

text \<open>One event keeps the invariant, adds the call it served to the calls that have
  responded, leaves the instants of the calls as they are, and leaves the last access as
  it was unless it served a save, whose instant is then the last access.\<close>

lemma dbStep_facts:
  assumes acc: "\<forall>v t. folderSaveAccepted env (found\<lparr>viewCount := v, lastAccessed := Some t\<rparr>)"
    and act: "folder.isActive found"
    and bound: "viewCount found + length (snd c) \<le> 2 ^ 53"
    and inv: "roundTripInv found c"
  shows "roundTripInv found (dbStep env (folder.oid found) e c)"
    and "doneCount (snd (dbStep env (folder.oid found) e c)) =
           doneCount (snd c) + length (servedNow env e c)"
    and "map fst (snd (dbStep env (folder.oid found) e c)) = map fst (snd c)"
    and "\<forall>j \<in> set (servedNow env e c). j < length (snd c)"
    and "lastAccessOf (folder.oid found) (fst (dbStep env (folder.oid found) e c)) =
           (if servedNow env e c = [] then lastAccessOf (folder.oid found) (fst c)
            else Some (Some (fst (snd c ! last (servedNow env e c)))))"
proof -
  obtain s calls where c: "c = (s, calls)" by (cases c)
  let ?v0 = "viewCount found"
  from inv c obtain g where
    g: "findById folder.oid (folder.oid found) (folders s) = Some g" "sameFolder found g"
       "?v0 + (if 0 < doneCount calls then 1 else 0) \<le> viewCount g"
       "viewCount g \<le> ?v0 + doneCount calls"
    and L: "\<And>i t doc. i < length calls \<Longrightarrow> calls ! i = (t, Loaded doc) \<Longrightarrow>
           sameFolder found doc \<and> ?v0 \<le> viewCount doc \<and>
           viewCount doc \<le> ?v0 + doneCount calls"
    unfolding roundTripInv_def by auto
  from dbStep_cases[OF acc act inv[unfolded c], of e]
  consider
    (loads) i t g' where "e = Read i" "i < length calls" "calls ! i = (t, Waiting)"
      "findById folder.oid (folder.oid found) (folders s) = Some g'"
      "dbStep env (folder.oid found) e (s, calls) = (s, calls[i := (t, Loaded g')])"
      "servedNow env e (s, calls) = []"
  | (saves) i t doc where "e = Write i" "i < length calls" "calls ! i = (t, Loaded doc)"
      "dbStep env (folder.oid found) e (s, calls) =
         (s\<lparr>folders := put folder.oid (bumpView t doc) (folders s)\<rparr>,
          calls[i := (t, Responded)])"
      "servedNow env e (s, calls) = [i]"
  | (idle) "dbStep env (folder.oid found) e (s, calls) = (s, calls)"
      "servedNow env e (s, calls) = []"
    by blast
  then have all: "roundTripInv found (dbStep env (folder.oid found) e c) \<and>
     doneCount (snd (dbStep env (folder.oid found) e c)) =
       doneCount (snd c) + length (servedNow env e c) \<and>
     map fst (snd (dbStep env (folder.oid found) e c)) = map fst (snd c) \<and>
     (\<forall>j \<in> set (servedNow env e c). j < length (snd c)) \<and>
     lastAccessOf (folder.oid found) (fst (dbStep env (folder.oid found) e c)) =
       (if servedNow env e c = [] then lastAccessOf (folder.oid found) (fst c)
        else Some (Some (fst (snd c ! last (servedNow env e c)))))"
  proof cases
    case loads
    have gg: "g' = g" using loads(4) g(1) by simp
    have nr: "snd (calls ! i) \<noteq> Responded" using loads(3) by simp
    have dc: "doneCount (calls[i := (t, Loaded g)]) = doneCount calls"
      using loads(2) nr by (rule doneCount_load)
    have v0g: "?v0 \<le> viewCount g" using g(3) by (simp split: if_splits)
    have A: "\<exists>h. findById folder.oid (folder.oid found) (folders s) = Some h \<and>
         sameFolder found h \<and>
         ?v0 + (if 0 < doneCount (calls[i := (t, Loaded g)]) then 1 else 0) \<le> viewCount h \<and>
         viewCount h \<le> ?v0 + doneCount (calls[i := (t, Loaded g)])"
      unfolding dc using g by blast
    have B: "sameFolder found doc \<and> ?v0 \<le> viewCount doc \<and>
         viewCount doc \<le> ?v0 + doneCount (calls[i := (t, Loaded g)])"
      if j: "j < length (calls[i := (t, Loaded g)])"
        and cj: "calls[i := (t, Loaded g)] ! j = (t', Loaded doc)" for j t' doc
    proof (cases "j = i")
      case True
      with j cj have "doc = g" by simp
      then show ?thesis unfolding dc using g v0g by simp
    next
      case False
      with j cj have "j < length calls" "calls ! j = (t', Loaded doc)" by simp_all
      then show ?thesis unfolding dc by (rule L)
    qed
    have I: "roundTripInv found (s, calls[i := (t, Loaded g)])"
      unfolding roundTripInv_def fst_conv snd_conv using A B by blast
    have F: "map fst (calls[i := (t, Loaded g)]) = map fst calls"
      using loads(2,3) by (simp add: map_update list_update_same_conv)
    show ?thesis
      unfolding c loads(5) loads(6) gg using I dc F by simp
  next
    case saves
    from L[OF saves(2,3)] have d: "sameFolder found doc" "?v0 \<le> viewCount doc"
      "viewCount doc \<le> ?v0 + doneCount calls" by auto
    have nr: "snd (calls ! i) \<noteq> Responded" using saves(3) by simp
    have dc: "doneCount (calls[i := (t, Responded)]) = Suc (doneCount calls)"
      using saves(2) nr by (rule doneCount_respond)
    have "doneCount calls < length calls" using saves(2) nr by (rule doneCount_less)
    then have "viewCount doc < 2 ^ 53" using d(3) bound c by simp
    then have plus: "numberPlusOne (viewCount doc) = viewCount doc + 1"
      by (simp add: numberPlusOne_def)
    have b: "bumpView t doc = found\<lparr>viewCount := viewCount doc + 1, lastAccessed := Some t\<rparr>"
      using sameFolder_bump(2)[OF d(1), of t] plus by simp
    have bid: "folder.oid (bumpView t doc) = folder.oid found" unfolding b by simp
    let ?s1 = "s\<lparr>folders := put folder.oid (bumpView t doc) (folders s)\<rparr>"
    have f: "findById folder.oid (folder.oid found) (folders ?s1) = Some (bumpView t doc)"
      using bid by (simp add: findById_put)
    have A: "\<exists>h. findById folder.oid (folder.oid found) (folders ?s1) = Some h \<and>
         sameFolder found h \<and>
         ?v0 + (if 0 < doneCount (calls[i := (t, Responded)]) then 1 else 0) \<le> viewCount h \<and>
         viewCount h \<le> ?v0 + doneCount (calls[i := (t, Responded)])"
      unfolding dc f using d sameFolder_bump(1)[OF d(1), of t] by (simp add: b)
    have B: "sameFolder found doc' \<and> ?v0 \<le> viewCount doc' \<and>
         viewCount doc' \<le> ?v0 + doneCount (calls[i := (t, Responded)])"
      if j: "j < length (calls[i := (t, Responded)])"
        and cj: "calls[i := (t, Responded)] ! j = (t', Loaded doc')" for j t' doc'
    proof (cases "j = i")
      case True
      with j cj show ?thesis by simp
    next
      case False
      with j cj have "j < length calls" "calls ! j = (t', Loaded doc')" by simp_all
      then have "sameFolder found doc' \<and> ?v0 \<le> viewCount doc' \<and>
         viewCount doc' \<le> ?v0 + doneCount calls" by (rule L)
      then show ?thesis unfolding dc by simp
    qed
    have I: "roundTripInv found (?s1, calls[i := (t, Responded)])"
      unfolding roundTripInv_def fst_conv snd_conv using A B by blast
    have F: "map fst (calls[i := (t, Responded)]) = map fst calls"
      using saves(2,3) by (simp add: map_update list_update_same_conv)
    have la: "lastAccessOf (folder.oid found) ?s1 = Some (Some t)"
      unfolding lastAccessOf_def f by (simp add: b)
    show ?thesis
      unfolding c saves(4) saves(5) using I dc F la saves(2,3) by simp
  next
    case idle
    show ?thesis
      unfolding c idle using inv c by simp
  qed
  from all show "roundTripInv found (dbStep env (folder.oid found) e c)"
    and "doneCount (snd (dbStep env (folder.oid found) e c)) =
           doneCount (snd c) + length (servedNow env e c)"
    and "map fst (snd (dbStep env (folder.oid found) e c)) = map fst (snd c)"
    and "\<forall>j \<in> set (servedNow env e c). j < length (snd c)"
    and "lastAccessOf (folder.oid found) (fst (dbStep env (folder.oid found) e c)) =
           (if servedNow env e c = [] then lastAccessOf (folder.oid found) (fst c)
            else Some (Some (fst (snd c ! last (servedNow env e c)))))"
    by blast+
qed

text \<open>The same along a list of events.\<close>

lemma runEvents_facts:
  assumes acc: "\<forall>v t. folderSaveAccepted env (found\<lparr>viewCount := v, lastAccessed := Some t\<rparr>)"
    and act: "folder.isActive found"
  shows "viewCount found + length (snd c) \<le> 2 ^ 53 \<Longrightarrow> roundTripInv found c \<Longrightarrow>
     roundTripInv found (runEvents env (folder.oid found) es c) \<and>
     length (snd (runEvents env (folder.oid found) es c)) = length (snd c) \<and>
     doneCount (snd (runEvents env (folder.oid found) es c)) =
       doneCount (snd c) + length (servedWrites env (folder.oid found) es c) \<and>
     (\<forall>j \<in> set (servedWrites env (folder.oid found) es c). j < length (snd c)) \<and>
     lastAccessOf (folder.oid found) (fst (runEvents env (folder.oid found) es c)) =
       (if servedWrites env (folder.oid found) es c = []
        then lastAccessOf (folder.oid found) (fst c)
        else Some (Some (fst (snd c ! last (servedWrites env (folder.oid found) es c)))))"
proof (induction es arbitrary: c)
  case Nil
  then show ?case by (simp add: runEvents_def)
next
  case (Cons e es)
  let ?fid = "folder.oid found"
  let ?c1 = "dbStep env ?fid e c"
  let ?now = "servedNow env e c"
  let ?rest = "servedWrites env ?fid es ?c1"
  note st = dbStep_facts[OF acc act Cons.prems(1) Cons.prems(2), of e]
  have len1: "length (snd ?c1) = length (snd c)"
    using st(3) by (metis length_map)
  have b1: "viewCount found + length (snd ?c1) \<le> 2 ^ 53"
    using Cons.prems(1) len1 by simp
  note ih = Cons.IH[OF b1 st(1)]
  have run: "runEvents env ?fid (e # es) c = runEvents env ?fid es ?c1"
    by (simp add: runEvents_def)
  have sv: "servedWrites env ?fid (e # es) c = ?now @ ?rest" by simp
  have idx: "\<forall>j \<in> set (?now @ ?rest). j < length (snd c)"
    using st(4) ih len1 by auto
  have inst: "fst (snd ?c1 ! j) = fst (snd c ! j)" if "j < length (snd c)" for j
  proof -
    have "fst (snd ?c1 ! j) = map fst (snd ?c1) ! j" using that len1 by simp
    also have "\<dots> = map fst (snd c) ! j" using st(3) by simp
    also have "\<dots> = fst (snd c ! j)" using that by simp
    finally show ?thesis .
  qed
  have la: "lastAccessOf ?fid (fst (runEvents env ?fid es ?c1)) =
       (if ?now @ ?rest = [] then lastAccessOf ?fid (fst c)
        else Some (Some (fst (snd c ! last (?now @ ?rest)))))"
  proof (cases "?rest = []")
    case True
    then show ?thesis using ih st(5) by simp
  next
    case False
    then have "last ?rest \<in> set ?rest" by simp
    then have "last ?rest < length (snd c)" using ih len1 by auto
    then have "fst (snd ?c1 ! last ?rest) = fst (snd c ! last ?rest)" by (rule inst)
    then show ?thesis using False ih by simp
  qed
  show ?case
    unfolding run sv using ih len1 st(2) idx la by simp
qed

lemma roundTripInv_init:
  assumes "findById folder.oid (folder.oid found) (folders s) = Some found"
    and "allWaiting calls"
  shows "roundTripInv found (s, calls)"
proof -
  have "doneCount calls = 0" using assms(2) by (rule doneCount_allWaiting)
  moreover have "calls ! i \<noteq> (t, Loaded doc)" if "i < length calls" for i t doc
    using allWaiting_nth[OF assms(2) that] by auto
  ultimately show ?thesis
    unfolding roundTripInv_def fst_conv snd_conv using assms(1) sameFolder_refl by auto
qed

text \<open>Once every one of the overlapping calls has responded, each has had its save
  applied once, the counter has advanced by at least one and at most the number of calls,
  and the last access is the instant of the call whose save was applied last.\<close>

lemma overlapping_bounds:
  assumes "findById folder.oid folderId (folders s) = Some found" and "folder.isActive found"
    and "\<forall>v t. folderSaveAccepted env (found\<lparr>viewCount := v, lastAccessed := Some t\<rparr>)"
    and "allWaiting calls" and "calls \<noteq> []"
    and "viewCount found + length calls \<le> 2 ^ 53"
    and "allResponded (snd (runEvents env folderId es (s, calls)))"
  shows "(\<exists>v. viewsOf folderId (fst (runEvents env folderId es (s, calls))) = Some v \<and>
             viewCount found + 1 \<le> v \<and> v \<le> viewCount found + length calls) \<and>
         length (servedWrites env folderId es (s, calls)) = length calls \<and>
         last (servedWrites env folderId es (s, calls)) < length calls \<and>
         lastAccessOf folderId (fst (runEvents env folderId es (s, calls))) =
           Some (Some (fst (calls ! last (servedWrites env folderId es (s, calls)))))"
proof -
  have fid: "folder.oid found = folderId" using assms(1) by (simp add: findById_Some)
  let ?c = "runEvents env folderId es (s, calls)"
  let ?sv = "servedWrites env folderId es (s, calls)"
  have i0: "roundTripInv found (s, calls)"
    using assms(1,4) fid by (simp add: roundTripInv_init)
  have b0: "viewCount found + length (snd (s, calls)) \<le> 2 ^ 53" using assms(6) by simp
  note f = runEvents_facts[OF assms(3) assms(2) b0 i0, of es, unfolded fid]
  have len: "length (snd ?c) = length calls" using f by simp
  have d0: "doneCount calls = 0" using assms(4) by (rule doneCount_allWaiting)
  have dc: "doneCount (snd ?c) = length calls"
    using doneCount_allResponded[OF assms(7)] len by simp
  have n: "length ?sv = length calls" using f dc d0 by simp
  then have ne: "?sv \<noteq> []" using assms(5) by auto
  then have "last ?sv \<in> set ?sv" by simp
  then have lt: "last ?sv < length calls" using f by auto
  have la: "lastAccessOf folderId (fst ?c) = Some (Some (fst (calls ! last ?sv)))"
    using f ne by simp
  from f obtain g where
    "findById folder.oid folderId (folders (fst ?c)) = Some g"
    "viewCount found + (if 0 < doneCount (snd ?c) then 1 else 0) \<le> viewCount g"
    "viewCount g \<le> viewCount found + doneCount (snd ?c)"
    unfolding roundTripInv_def fid by blast
  then have v: "\<exists>v. viewsOf folderId (fst ?c) = Some v \<and>
             viewCount found + 1 \<le> v \<and> v \<le> viewCount found + length calls"
    unfolding dc viewsOf_def using assms(5) by simp
  from v n lt la show ?thesis by blast
qed

text \<open>Calls that run one after another each add one.\<close>

lemma accessAll_sequential:
  assumes cast: "castObjectId env folderIdParam = Some folderId"
    and acc: "\<forall>v t. folderSaveAccepted env (found\<lparr>viewCount := v, lastAccessed := Some t\<rparr>)"
    and act: "folder.isActive found"
  shows "findById folder.oid folderId (folders s) = Some g \<Longrightarrow> sameFolder found g \<Longrightarrow>
     viewCount g + length cs \<le> 2 ^ 53 \<Longrightarrow>
     \<exists>h. findById folder.oid folderId (folders (snd (accessAll env folderIdParam cs s))) =
           Some h \<and>
         sameFolder found h \<and>
         viewCount h = viewCount g + length cs \<and>
         lastAccessed h = (if cs = [] then lastAccessed g else Some (fst (last cs))) \<and>
         list_all success (fst (accessAll env folderIdParam cs s))"
proof (induction cs arbitrary: s g)
  case Nil
  then show ?case by simp
next
  case (Cons c cs)
  obtain now reqUser req where c: "c = (now, reqUser, req)" by (cases c)
  let ?s1 = "snd (accessFolder env now reqUser folderIdParam req s)"
  have lt: "viewCount g < 2 ^ 53" using Cons.prems(3) by simp
  have b: "bumpView now g = found\<lparr>viewCount := viewCount g + 1, lastAccessed := Some now\<rparr>"
    using sameFolder_bump(2)[OF Cons.prems(2), of now] lt by (simp add: numberPlusOne_def)
  have ok: "folderSaveAccepted env (bumpView now g)" unfolding b using acc by blast
  have ga: "folder.isActive g" using sameFolder_fields(2)[OF Cons.prems(2)] act by simp
  have gid: "folder.oid g = folderId" using Cons.prems(1) by (simp add: findById_Some)
  have bid: "folder.oid (bumpView now g) = folderId" using gid by (simp add: bumpView_def)
  have r: "success (fst (accessFolder env now reqUser folderIdParam req s))"
    using cast Cons.prems(1) ga ok
    by (simp add: accessFolder_def incrementViewCount_def save_folder_def)
  have f1: "findById folder.oid folderId (folders ?s1) = Some (bumpView now g)"
    using cast Cons.prems(1) ga ok bid
    by (simp add: accessFolder_def incrementViewCount_def save_folder_def createLog_def Let_def
                  findById_put)
  have s1: "sameFolder found (bumpView now g)"
    using Cons.prems(2) by (rule sameFolder_bump(1))
  have b1: "viewCount (bumpView now g) + length cs \<le> 2 ^ 53"
    unfolding b using Cons.prems(3) by simp
  from Cons.IH[OF f1 s1 b1] obtain h where
    h: "findById folder.oid folderId (folders (snd (accessAll env folderIdParam cs ?s1))) =
          Some h"
       "sameFolder found h"
       "viewCount h = viewCount (bumpView now g) + length cs"
       "lastAccessed h = (if cs = [] then lastAccessed (bumpView now g)
                          else Some (fst (last cs)))"
       "list_all success (fst (accessAll env folderIdParam cs ?s1))"
    by blast
  have unf: "accessAll env folderIdParam (c # cs) s =
       (fst (accessFolder env now reqUser folderIdParam req s) #
          fst (accessAll env folderIdParam cs ?s1),
        snd (accessAll env folderIdParam cs ?s1))"
    unfolding c by (simp add: case_prod_beta)
  have vc: "viewCount h = viewCount g + length (c # cs)" using h(3) by (simp add: b)
  have la: "lastAccessed h = (if c # cs = [] then lastAccessed g else Some (fst (last (c # cs))))"
    using h(4) by (simp add: b c)
  show ?case
    unfolding unf using h(1,2,5) r vc la by simp
qed

text \<open>The read and the save of one call, served with nothing in between, change the
  folder collection as the handler does.\<close>

lemma accessFolder_as_events:
  assumes "castObjectId env folderIdParam = Some folderId"
    and "i < length calls" and "calls ! i = (now, Waiting)"
  shows "folders (fst (runEvents env folderId [Read i, Write i] (s, calls))) =
           folders (snd (accessFolder env now reqUser folderIdParam req s))"
  using assms
  by (auto simp: runEvents_def accessFolder_def createLog_def Let_def incrementViewCount_def
           split: option.splits sum.splits)

text \<open>
  Claim C4, as amended. The view counter is incremented by a read followed by a save of
  the value read plus one, not by an atomic update of the store. Take an active folder
  whose saves the store accepts whatever its counter and last access, and calls whose
  number added to the counter does not exceed \<open>2^53\<close>. Access calls that run one after
  another all succeed, raise the counter by exactly their number and leave the last access
  at the instant of the last call. For overlapping calls, once all have responded the
  save of each has been applied once, the counter has advanced by at least one and at
  most the number of calls, and the last access is the instant of the call whose save was
  applied last.
\<close>

theorem access_view_count_round_trip:
  assumes "castObjectId env folderIdParam = Some folderId"
    and "findById folder.oid folderId (folders s) = Some found"
    and "folder.isActive found"
    and "\<forall>v t. folderSaveAccepted env (found\<lparr>viewCount := v, lastAccessed := Some t\<rparr>)"
  shows
    "(viewCount found + length cs \<le> 2 ^ 53 \<longrightarrow>
        viewsOf folderId (snd (accessAll env folderIdParam cs s)) =
          Some (viewCount found + length cs) \<and>
        list_all success (fst (accessAll env folderIdParam cs s)) \<and>
        (cs \<noteq> [] \<longrightarrow>
           lastAccessOf folderId (snd (accessAll env folderIdParam cs s)) =
             Some (Some (fst (last cs)))))
     \<and> (allWaiting calls \<and> calls \<noteq> [] \<and> viewCount found + length calls \<le> 2 ^ 53 \<and>
        allResponded (snd (runEvents env folderId es (s, calls))) \<longrightarrow>
          (\<exists>v. viewsOf folderId (fst (runEvents env folderId es (s, calls))) = Some v \<and>
               viewCount found + 1 \<le> v \<and> v \<le> viewCount found + length calls) \<and>
          length (servedWrites env folderId es (s, calls)) = length calls \<and>
          last (servedWrites env folderId es (s, calls)) < length calls \<and>
          lastAccessOf folderId (fst (runEvents env folderId es (s, calls))) =
            Some (Some (fst (calls ! last (servedWrites env folderId es (s, calls))))))"
proof -
  have seq: "viewCount found + length cs \<le> 2 ^ 53 \<longrightarrow>
        viewsOf folderId (snd (accessAll env folderIdParam cs s)) =
          Some (viewCount found + length cs) \<and>
        list_all success (fst (accessAll env folderIdParam cs s)) \<and>
        (cs \<noteq> [] \<longrightarrow>
           lastAccessOf folderId (snd (accessAll env folderIdParam cs s)) =
             Some (Some (fst (last cs))))"
  proof
    assume b: "viewCount found + length cs \<le> 2 ^ 53"
    from accessAll_sequential[OF assms(1) assms(4) assms(3) assms(2) sameFolder_refl b]
    obtain h where
      h: "findById folder.oid folderId (folders (snd (accessAll env folderIdParam cs s))) =
            Some h"
         "viewCount h = viewCount found + length cs"
         "lastAccessed h = (if cs = [] then lastAccessed found else Some (fst (last cs)))"
         "list_all success (fst (accessAll env folderIdParam cs s))"
      by blast
    show "viewsOf folderId (snd (accessAll env folderIdParam cs s)) =
          Some (viewCount found + length cs) \<and>
        list_all success (fst (accessAll env folderIdParam cs s)) \<and>
        (cs \<noteq> [] \<longrightarrow>
           lastAccessOf folderId (snd (accessAll env folderIdParam cs s)) =
             Some (Some (fst (last cs))))"
      using h by (simp add: viewsOf_def lastAccessOf_def)
  qed
  have ovl: "allWaiting calls \<and> calls \<noteq> [] \<and> viewCount found + length calls \<le> 2 ^ 53 \<and>
        allResponded (snd (runEvents env folderId es (s, calls))) \<longrightarrow>
          (\<exists>v. viewsOf folderId (fst (runEvents env folderId es (s, calls))) = Some v \<and>
               viewCount found + 1 \<le> v \<and> v \<le> viewCount found + length calls) \<and>
          length (servedWrites env folderId es (s, calls)) = length calls \<and>
          last (servedWrites env folderId es (s, calls)) < length calls \<and>
          lastAccessOf folderId (fst (runEvents env folderId es (s, calls))) =
            Some (Some (fst (calls ! last (servedWrites env folderId es (s, calls)))))"
    by (intro impI, elim conjE, rule overlapping_bounds[OF assms(2) assms(3) assms(4)];
        assumption)
  from seq ovl show ?thesis by (intro conjI)
qed

theorem access_view_count_round_trip_witness:
  "castObjectId envSchema ''00000000000000000000000a'' = Some 10 \<and>
   findById folder.oid 10 (folders s0) = Some folder0 \<and> folder.isActive folder0 \<and>
   (\<forall>v t. folderSaveAccepted envSchema (folder0\<lparr>viewCount := v, lastAccessed := Some t\<rparr>)) \<and>
   viewsOf 10 (snd (accessAll envSchema ''00000000000000000000000a'' visits2 s0)) = Some 2 \<and>
   lastAccessOf 10 (snd (accessAll envSchema ''00000000000000000000000a'' visits2 s0)) =
     Some (Some 200) \<and>
   allWaiting calls2 \<and>
   allResponded
     (snd (runEvents envSchema 10 [Read 0, Read 1, Write 1, Write 0] (s0, calls2))) \<and>
   servedWrites envSchema 10 [Read 0, Read 1, Write 1, Write 0] (s0, calls2) = [1, 0] \<and>
   lastAccessOf 10 (fst (runEvents envSchema 10 [Read 0, Read 1, Write 1, Write 0] (s0, calls2)))
     = Some (Some 100)"
proof -
  let ?es = "[Read 0, Read 1, Write 1, Write 0]"
  have h0: "castObjectId envSchema ''00000000000000000000000a'' = Some 10"
    by (simp add: installation)
  have h1: "findById folder.oid 10 (folders s0) = Some folder0"
    by (simp add: installation findById_def)
  have h2: "folder.isActive folder0" by (simp add: installation)
  have h3: "\<forall>v t. folderSaveAccepted envSchema
              (folder0\<lparr>viewCount := v, lastAccessed := Some t\<rparr>)"
    by (simp add: installation folderSchemaChecks_def folderDepartments_def)
  have v: "viewCount folder0 = 0" "length visits2 = 2" "visits2 \<noteq> []"
    "fst (last visits2) = 200" "length calls2 = 2" "calls2 \<noteq> []"
    by (simp_all add: installation)
  have w: "allWaiting calls2" by (simp add: installation allWaiting_def)
  have r: "allResponded (snd (runEvents envSchema 10 ?es (s0, calls2)))"
    by (simp add: installation runEvents_def findById_def allResponded_def
                  incrementViewCount_def save_folder_def bumpView_def put_def
                  folderSchemaChecks_def folderDepartments_def)
  have sv: "servedWrites envSchema 10 ?es (s0, calls2) = [1, 0]"
    by (simp add: installation findById_def servedNow_def writes_def
                  incrementViewCount_def save_folder_def bumpView_def put_def
                  folderSchemaChecks_def folderDepartments_def)
  note rt = access_view_count_round_trip [OF h0 h1 h2 h3, of visits2 calls2 ?es]
  from rt v have a: "viewsOf 10
       (snd (accessAll envSchema ''00000000000000000000000a'' visits2 s0)) = Some 2 \<and>
     lastAccessOf 10 (snd (accessAll envSchema ''00000000000000000000000a'' visits2 s0)) =
       Some (Some 200)"
    by simp
  from rt v w r have "lastAccessOf 10 (fst (runEvents envSchema 10 ?es (s0, calls2))) =
      Some (Some (fst (calls2 ! last (servedWrites envSchema 10 ?es (s0, calls2)))))"
    by simp
  then have b: "lastAccessOf 10 (fst (runEvents envSchema 10 ?es (s0, calls2))) =
      Some (Some 100)"
    unfolding sv by (simp add: calls2_def)
  from h0 h1 h2 h3 a w r sv b show ?thesis by blast
qed

text \<open>
  Claim C4 as stated does not hold: two calls on a folder with counter 0, both read before
  either saves, both respond, and the counter is 1.
\<close>

theorem concurrent_access_lost_update:
  "viewsOf 10 s0 = Some 0 \<and>
   allWaiting calls2 \<and> length calls2 = 2 \<and>
   allResponded (snd (runEvents env0 10 [Read 0, Read 1, Write 0, Write 1] (s0, calls2))) \<and>
   viewsOf 10 (fst (runEvents env0 10 [Read 0, Read 1, Write 0, Write 1] (s0, calls2))) =
     Some 1"
  by (simp add: installation runEvents_def viewsOf_def findById_def allResponded_def
                allWaiting_def incrementViewCount_def save_folder_def bumpView_def put_def
                numberPlusOne_def)

end
